theory Spec2Isabelle
  imports Main "HOL-Library.AList"
begin

section \<open>Stairs bot: the per-user ledger of \<open>src/index.js\<close>\<close>

text \<open>
  The repository holds three generations of one Telegram bot.  The first program of
  \<open>src/index.js\<close> (lines 1 to 686) is the current one: per-day history, the
  \<open>+ / -\<close> buttons, \<open>/update\<close>.  The second program of the same file (from line 687) is
  its predecessor (per-day history, no buttons), and \<open>src/unnamed/part_000\<close> is the
  first generation (a total per user, no per-day history, no \<open>version\<close> tag).

  Conventions of the embedding.
  \<^item> A JavaScript string is a \<open>string\<close>; one \<open>char\<close> stands for one code unit, so
    \<open>length\<close> is \<open>.length\<close> for text in the 8-bit range.
  \<^item> A JavaScript number is a double.  The ledger holds integers and, after an
    overflow, the non-finite values, so a stored number is a \<open>number\<close>: a double
    with an integer value, an infinity or NaN; \<open>+\<close> rounds as the runtime does
    (\<open>dadd\<close>).  An amount that a user sends is the result of \<open>Number(...)\<close>:
    \<open>Integer n\<close> when it has passed \<open>Number.isFinite\<close> and \<open>Number.isInteger\<close>,
    \<open>NonInteger\<close> otherwise (NaN, the infinities, fractions).
  \<^item> A JavaScript object used as a dictionary is an association list in insertion
    order; \<open>o[k] = v\<close> is \<open>AList.update k v\<close> (overwrite in place, or append),
    \<open>o[k]\<close> is \<open>map_of o k\<close>, \<open>Object.values(o)\<close> is \<open>map snd o\<close>.
    (The runtime lists integer-like keys, such as user ids, in numeric order; the
    order of the users plays no part in any statement below.)
  \<^item> A property that the code reads through \<open>x || default\<close> is an \<open>option\<close>:
    \<open>None\<close> is \<open>undefined\<close>.
  \<^item> The clock is a parameter: \<open>now\<close> is \<open>new Date().toISOString()\<close>, \<open>today\<close> is
    \<open>todayKey()\<close>, \<open>year\<close> is \<open>new Date().getFullYear()\<close>.
  \<^item> A \<open>throw\<close> is a value: a function that can throw returns \<open>failure + 'a\<close>.
\<close>

subsection \<open>Strings\<close>

text \<open>White space of \<open>String.prototype.trim\<close> within the 8-bit range: TAB, LF, VT, FF,
  CR, SPACE and NBSP.\<close>

definition is_space :: "char \<Rightarrow> bool" where
  "is_space c \<longleftrightarrow> (of_char c :: nat) \<in> {9, 10, 11, 12, 13, 32, 160}"

definition trim :: "string \<Rightarrow> string" where
  "trim s = rev (dropWhile is_space (rev (dropWhile is_space s)))"

text \<open>\<open>msg.startsWith("/")\<close>\<close>

fun startsWithSlash :: "string \<Rightarrow> bool" where
  "startsWithSlash (c # cs) = (c = CHR ''/'')"
| "startsWithSlash [] = False"

text \<open>The regular-expression class \<open>\d\<close> (ASCII digits only) and the value of a digit.\<close>

definition is_digit :: "char \<Rightarrow> bool" where
  "is_digit c \<longleftrightarrow> c \<in> set ''0123456789''"

definition digit_val :: "char \<Rightarrow> int" where
  "digit_val c = int (of_char c) - 48"

definition digit_char :: "int \<Rightarrow> char" where
  "digit_char n = ''0123456789'' ! nat n"

text \<open>An anchored pattern \<open>/^...$/\<close> made of \<open>\d\<close> and literal characters.\<close>

datatype atom = D | L char

fun matches :: "atom list \<Rightarrow> string \<Rightarrow> bool" where
  "matches [] [] = True"
| "matches (D # ps) (c # cs) = (is_digit c \<and> matches ps cs)"
| "matches (L a # ps) (c # cs) = (c = a \<and> matches ps cs)"
| "matches _ _ = False"

text \<open>\<open>const ISO_RE = /^\d{4}-\d{2}-\d{2}$/;  const DM_RE = /^\d{2}\.\d{2}$/;\<close>\<close>

definition ISO_RE :: "string \<Rightarrow> bool" where
  "ISO_RE = matches [D, D, D, D, L CHR ''-'', D, D, L CHR ''-'', D, D]"

definition DM_RE :: "string \<Rightarrow> bool" where
  "DM_RE = matches [D, D, L CHR ''.'', D, D]"

subsection \<open>The runtime's calendar: \<open>Date.UTC\<close> and \<open>toISOString\<close>\<close>

text \<open>
  \<open>Date.UTC(y, m, d)\<close> accepts any integers: the month index is reduced modulo 12 into
  the year, and a day outside the month rolls over into the neighbouring months.  The
  model keeps a date as (year, month index 0..11, day of month).
\<close>

definition is_leap :: "int \<Rightarrow> bool" where
  "is_leap y \<longleftrightarrow> (y mod 4 = 0 \<and> y mod 100 \<noteq> 0) \<or> y mod 400 = 0"

definition days_in_month :: "int \<Rightarrow> int \<Rightarrow> int" where
  "days_in_month y m =
     (if m = 1 then (if is_leap y then 29 else 28)
      else if m = 3 \<or> m = 5 \<or> m = 8 \<or> m = 10 then 30
      else 31)"

lemma days_in_month_ge: "28 \<le> days_in_month y m"
  by (simp add: days_in_month_def)

function roll_forward :: "int \<Rightarrow> int \<Rightarrow> int \<Rightarrow> int \<times> int \<times> int" where
  "roll_forward y m d =
     (if days_in_month y m < d
      then (if m = 11 then roll_forward (y + 1) 0 (d - days_in_month y m)
            else roll_forward y (m + 1) (d - days_in_month y m))
      else (y, m, d))"
  by pat_completeness auto
termination
proof (relation "measure (\<lambda>(y, m, d). nat d)")
  show "wf (measure (\<lambda>(y, m, d). nat d))" by simp
next
  fix y m d :: int
  assume "days_in_month y m < d" "m = 11"
  with days_in_month_ge [of y m]
  show "((y + 1, 0, d - days_in_month y m), (y, m, d)) \<in> measure (\<lambda>(y, m, d). nat d)"
    by simp
next
  fix y m d :: int
  assume "days_in_month y m < d" "m \<noteq> 11"
  with days_in_month_ge [of y m]
  show "((y, m + 1, d - days_in_month y m), (y, m, d)) \<in> measure (\<lambda>(y, m, d). nat d)"
    by simp
qed

function roll_back :: "int \<Rightarrow> int \<Rightarrow> int \<Rightarrow> int \<times> int \<times> int" where
  "roll_back y m d =
     (if d < 1
      then (if m = 0 then roll_back (y - 1) 11 (d + days_in_month (y - 1) 11)
            else roll_back y (m - 1) (d + days_in_month y (m - 1)))
      else (y, m, d))"
  by pat_completeness auto
termination
proof (relation "measure (\<lambda>(y, m, d). nat (1 - d))")
  show "wf (measure (\<lambda>(y, m, d). nat (1 - d)))" by simp
next
  fix y m d :: int
  assume "d < 1" "m = 0"
  with days_in_month_ge [of "y - 1" 11]
  show "((y - 1, 11, d + days_in_month (y - 1) 11), (y, m, d))
          \<in> measure (\<lambda>(y, m, d). nat (1 - d))"
    by simp
next
  fix y m d :: int
  assume "d < 1" "m \<noteq> 0"
  with days_in_month_ge [of y "m - 1"]
  show "((y, m - 1, d + days_in_month y (m - 1)), (y, m, d))
          \<in> measure (\<lambda>(y, m, d). nat (1 - d))"
    by simp
qed

text \<open>\<open>Date.UTC(y, m, d)\<close>: a year from 0 to 99 means 1900 + y; then the month and the
  day are normalised.  (\<open>div\<close> and \<open>mod\<close> on \<open>int\<close> round towards minus infinity, as
  the runtime's floor and modulo do.)\<close>

definition Date_UTC :: "int \<Rightarrow> int \<Rightarrow> int \<Rightarrow> int \<times> int \<times> int" where
  "Date_UTC y m d =
     (let yr = (if 0 \<le> y \<and> y \<le> 99 then 1900 + y else y);
          ym = yr + m div 12;
          mn = m mod 12
      in if d < 1 then roll_back ym mn d else roll_forward ym mn d)"

definition pad2 :: "int \<Rightarrow> string" where
  "pad2 n = [digit_char (n div 10 mod 10), digit_char (n mod 10)]"

definition pad4 :: "int \<Rightarrow> string" where
  "pad4 n = [digit_char (n div 1000 mod 10), digit_char (n div 100 mod 10),
             digit_char (n div 10 mod 10), digit_char (n mod 10)]"

definition pad6 :: "int \<Rightarrow> string" where
  "pad6 n = [digit_char (n div 100000 mod 10), digit_char (n div 10000 mod 10)] @ pad4 n"

text \<open>\<open>dt.toISOString().slice(0, 10)\<close>: four digits for the years 0 to 9999, a sign and
  six digits otherwise (which \<open>slice\<close> then cuts after ten characters).\<close>

definition isoDate :: "int \<times> int \<times> int \<Rightarrow> string" where
  "isoDate ymd =
     (case ymd of (y, m, d) \<Rightarrow>
        take 10 ((if 0 \<le> y \<and> y \<le> 9999 then pad4 y
                  else (if y < 0 then CHR ''-'' else CHR ''+'') # pad6 \<bar>y\<bar>)
                 @ ''-'' @ pad2 (m + 1) @ ''-'' @ pad2 d))"

subsection \<open>\<open>parseUserDate\<close>\<close>

text \<open>
  \<^verbatim>\<open>
  function parseUserDate(s) {
    const str = (s || "").trim();
    if (ISO_RE.test(str)) return str; // already ISO
    if (DM_RE.test(str)) {
      const [d, m] = str.split(".").map(Number);
      const y = new Date().getFullYear(); // current year
      const dt = new Date(Date.UTC(y, m - 1, d));
      return dt.toISOString().slice(0, 10);
    }
    return null; // invalid
  }
  \<close>
  \<open>None\<close> is the \<open>null\<close> that the caller answers with the "invalid date format" reply.
  A string that \<open>DM_RE\<close> accepts has five characters, so the second \<open>case\<close> below
  always takes its first branch.
\<close>

definition parseUserDate :: "int \<Rightarrow> string \<Rightarrow> string option" where
  "parseUserDate year s =
     (let str = trim s in
      if ISO_RE str then Some str
      else if DM_RE str then
        (case str of
           [d1, d2, _, m1, m2] \<Rightarrow>
             (let d = 10 * digit_val d1 + digit_val d2;
                  m = 10 * digit_val m1 + digit_val m2
              in Some (isoDate (Date_UTC year (m - 1) d)))
         | _ \<Rightarrow> None)
      else None)"


subsection \<open>Numbers\<close>

text \<open>
  The numbers of the ledger.  \<open>Fin n\<close> is the double whose value is the integer \<open>n\<close>;
  \<open>PInf\<close>, \<open>NInf\<close> and \<open>NaN\<close> are \<open>Infinity\<close>, \<open>-Infinity\<close> and \<open>NaN\<close>.  (Both zeros
  are \<open>Fin 0\<close>: the code cannot tell them apart.)  Every integer below \<open>2^53\<close> in
  magnitude is a double; a larger one is a double when it is a multiple of the power of
  two that leaves it 53 significant bits.
\<close>

datatype number = Fin int | PInf | NInf | NaN

text \<open>\<open>Number.MAX_SAFE_INTEGER\<close>\<close>

definition MAX_SAFE_INTEGER :: int where
  "MAX_SAFE_INTEGER = 2 ^ 53 - 1"

text \<open>The binary exponent of the last place of \<open>a\<close>: the least \<open>e\<close> for which
  \<open>a div 2^e\<close> has at most 53 bits.\<close>

function expo :: "int \<Rightarrow> nat" where
  "expo a = (if a < 2 ^ 53 then 0 else Suc (expo (a div 2)))"
  by pat_completeness auto
termination
  by (relation "measure nat") auto

text \<open>Rounding a non-negative integer to 53 significant bits, to the nearest, a tie to
  the even significand (the rounding mode of the runtime).\<close>

definition round_even :: "int \<Rightarrow> int" where
  "round_even a =
     (let e = expo a; q = a div 2 ^ e; r = a mod 2 ^ e
      in (if 2 ^ e < 2 * r \<or> (2 * r = 2 ^ e \<and> odd q) then q + 1 else q) * 2 ^ e)"

text \<open>The double nearest to the integer \<open>x\<close>; a magnitude that rounds to \<open>2^1024\<close> or
  more overflows to an infinity.\<close>

definition fl :: "int \<Rightarrow> number" where
  "fl x =
     (let y = round_even \<bar>x\<bar>
      in if 2 ^ 1024 \<le> y then (if x < 0 then NInf else PInf)
         else Fin (if x < 0 then - y else y))"

text \<open>\<open>a + b\<close> on doubles: the exact sum, rounded.  (\<open>a - b\<close> is \<open>a + (-b)\<close>.)\<close>

fun dadd :: "number \<Rightarrow> number \<Rightarrow> number" where
  "dadd (Fin a) (Fin b) = fl (a + b)"
| "dadd NaN _ = NaN"
| "dadd _ NaN = NaN"
| "dadd PInf NInf = NaN"
| "dadd NInf PInf = NaN"
| "dadd PInf _ = PInf"
| "dadd _ PInf = PInf"
| "dadd NInf _ = NInf"
| "dadd _ NInf = NInf"

text \<open>\<open>a < b\<close> on doubles (false whenever NaN is involved); \<open>a > b\<close> is \<open>lt b a\<close>.\<close>

fun lt :: "number \<Rightarrow> number \<Rightarrow> bool" where
  "lt (Fin a) (Fin b) = (a < b)"
| "lt NaN _ = False"
| "lt _ NaN = False"
| "lt _ NInf = False"
| "lt NInf _ = True"
| "lt PInf _ = False"
| "lt _ PInf = True"

text \<open>\<open>x || 0\<close> for a number: zero and NaN are falsy.\<close>

definition or0 :: "number \<Rightarrow> number" where
  "or0 x = (if x = Fin 0 \<or> x = NaN then Fin 0 else x)"


text \<open>
  A number after \<open>JSON.stringify\<close> and \<open>JSON.parse\<close>: a finite double comes back as
  it was; for a non-finite one \<open>JSON.stringify\<close> writes \<open>null\<close>.  The code reads a
  stored number only through \<open>x || 0\<close>, which takes \<open>null\<close> and NaN alike to 0, so the
  \<open>null\<close> that comes back is kept as \<open>NaN\<close>.
\<close>

definition json_number :: "number \<Rightarrow> number" where
  "json_number x = (case x of Fin n \<Rightarrow> Fin n | _ \<Rightarrow> NaN)"

subsection \<open>The ledger\<close>

text \<open>
  A user record \<open>{ name, total, days, updatedAt }\<close>.  Records written by the first
  generation have no \<open>days\<close>; the code reads \<open>u.total || 0\<close> and \<open>u.days || {}\<close>.
\<close>

record user =
  name :: string
  total :: "number option"
  days :: "(string \<times> number) list option"
  updatedAt :: string

text \<open>The in-memory \<open>db\<close> after loading: \<open>{ users, createdAt, updatedAt, version }\<close>.\<close>

record ledger =
  users :: "(string \<times> user) list"
  createdAt :: string
  db_updatedAt :: string
  version :: "int option"

text \<open>What \<open>JSON.parse\<close> yields for the data file, before the defaults are filled in.\<close>

record snapshot =
  s_users :: "(string \<times> user) list option"
  s_createdAt :: "string option"
  s_updatedAt :: "string option"
  s_version :: "int option"

text \<open>\<open>u.total || 0\<close>\<close>

definition total_or0 :: "user \<Rightarrow> number" where
  "total_or0 u = (case total u of None \<Rightarrow> Fin 0 | Some t \<Rightarrow> or0 t)"

definition days_or_empty :: "user \<Rightarrow> (string \<times> number) list" where
  "days_or_empty u = (case days u of None \<Rightarrow> [] | Some ds \<Rightarrow> ds)"

text \<open>\<open>ds[k] || 0\<close>\<close>

definition day_or0 :: "(string \<times> number) list \<Rightarrow> string \<Rightarrow> number" where
  "day_or0 ds k = (case map_of ds k of None \<Rightarrow> Fin 0 | Some v \<Rightarrow> or0 v)"

text \<open>\<open>Object.values(u.days).reduce((a, v) => a + (v || 0), 0)\<close>\<close>

definition sum_days :: "(string \<times> number) list \<Rightarrow> number" where
  "sum_days ds = foldl (\<lambda>a v. dadd a (or0 v)) (Fin 0) (map snd ds)"

text \<open>The fallback name of the source (Ukrainian for "without a name", nine Cyrillic
  characters with one space) is called \<open>NO_NAME\<close>; it is written here
  as the bytes of its UTF-8 form.  Only its being non-empty is used.\<close>

definition NO_NAME :: string where
  "NO_NAME = [CHR 0xD0, CHR 0x91, CHR 0xD0, CHR 0xB5, CHR 0xD0, CHR 0xB7, CHR 0x20,
              CHR 0xD1, CHR 0x96, CHR 0xD0, CHR 0xBC, CHR 0xD0, CHR 0xB5, CHR 0xD0,
              CHR 0xBD, CHR 0xD1, CHR 0x96]"

text \<open>\<open>nameFallback || NO_NAME\<close>: an absent or empty hint gives the fallback.\<close>

definition name_or_default :: "string option \<Rightarrow> string" where
  "name_or_default hint =
     (case hint of None \<Rightarrow> NO_NAME | Some n \<Rightarrow> if n = [] then NO_NAME else n)"

definition fresh_user :: "string \<Rightarrow> string \<Rightarrow> user" where
  "fresh_user nm now = \<lparr>name = nm, total = Some (Fin 0), days = Some [], updatedAt = now\<rparr>"

text \<open>\<open>function isRegistered(userId) { return Boolean(db.users[userId]?.name); }\<close>\<close>

definition isRegistered :: "ledger \<Rightarrow> string \<Rightarrow> bool" where
  "isRegistered d userId =
     (case map_of (users d) userId of None \<Rightarrow> False | Some u \<Rightarrow> name u \<noteq> [])"

text \<open>
  \<^verbatim>\<open>
  function addStairs(userId, nameFallback, amount, dateKey = todayKey()) {
    const now = new Date().toISOString();
    if (!db.users[userId]) {
      db.users[userId] = { name: nameFallback || NO_NAME, total: 0, days: {}, updatedAt: now };
    }
    const u = db.users[userId];
    u.total = (u.total || 0) + amount;
    u.days ||= {};
    u.days[dateKey] = (u.days[dateKey] || 0) + amount;
    u.updatedAt = now;
  }
  \<close>
  The amount is the integer value of a double.
\<close>

definition addStairs :: "string \<Rightarrow> string \<Rightarrow> string option \<Rightarrow> int \<Rightarrow> string \<Rightarrow> ledger \<Rightarrow> ledger" where
  "addStairs now userId nameFallback amount dateKey d =
     (let u = (case map_of (users d) userId of
                 None \<Rightarrow> fresh_user (name_or_default nameFallback) now
               | Some u0 \<Rightarrow> u0);
          ds = days_or_empty u;
          u' = u\<lparr>total := Some (dadd (total_or0 u) (Fin amount)),
                  days := Some (AList.update dateKey (dadd (day_or0 ds dateKey) (Fin amount)) ds),
                  updatedAt := now\<rparr>
      in d\<lparr>users := AList.update userId u' (users d)\<rparr>)"

subsection \<open>Loading and migration: \<open>readDbV2\<close>\<close>

text \<open>
  \<^verbatim>\<open>
  let db = await readDbV2();                                        // line 44
  ...
  const todayKey = () => new Date().toISOString().slice(0, 10);     // line 50
  ...
  async function readDbV2() {
    try {
      const raw = await fsp.readFile(DATA_FILE, "utf8");
      const parsed = JSON.parse(raw);
      // Migrate from v1 (no per-day storage)
      if (!parsed.version) {
        for (const [id, u] of Object.entries(parsed.users || {})) {
          u.days = u.days || {};
          // we can't reconstruct history; place their total into today so the chart has a point
          if ((u.total || 0) > 0 && Object.keys(u.days).length === 0) {
            u.days[todayKey()] = u.total;
          }
        }
        parsed.version = 2;
        parsed.updatedAt = new Date().toISOString();
        await fsp.writeFile(DATA_FILE, JSON.stringify(parsed, null, 2));
      }
      // defensive defaults
      parsed.users ||= {};
      parsed.createdAt ||= new Date().toISOString();
      parsed.updatedAt ||= new Date().toISOString();
      return parsed;
    } catch (e) {
      console.error("DB read failed, reinitializing:", e);
      const now = new Date().toISOString();
      const seed = { users: {}, createdAt: now, updatedAt: now, version: 2 };
      await fsp.writeFile(DATA_FILE, JSON.stringify(seed, null, 2));
      return seed;
    }
  }
  \<close>
  \<open>readDbV2\<close> is called once, at line 44 of the module, and the module waits there for
  its result.  The constant \<open>todayKey\<close> is declared with \<open>const\<close> at line 50, so while
  \<open>readDbV2\<close> runs it is not yet initialised, and evaluating \<open>todayKey\<close> in the line
  \<open>u.days[todayKey()] = u.total\<close> throws a \<open>ReferenceError\<close>.  The error is thrown inside
  the \<open>try\<close>, so the \<open>catch\<close> writes and returns the empty seed.  (The second
  program of \<open>index.js\<close> has the same order, lines 734 and 740.)
\<close>

datatype failure = ReferenceError

text \<open>The condition of the seeding line: \<open>(u.total || 0) > 0\<close> and no key in \<open>u.days\<close>.\<close>

definition needs_seed :: "user \<Rightarrow> bool" where
  "needs_seed u \<longleftrightarrow> lt (Fin 0) (total_or0 u) \<and> days_or_empty u = []"

text \<open>The loop over the users: a record that needs no seeding gets \<open>days = days || {}\<close>;
  the first record that needs seeding ends the loop with the error.\<close>

fun migrate_users :: "(string \<times> user) list \<Rightarrow> failure + (string \<times> user) list" where
  "migrate_users [] = Inr []"
| "migrate_users ((uid, u) # us) =
     (if needs_seed u then Inl ReferenceError
      else case migrate_users us of
             Inl e \<Rightarrow> Inl e
           | Inr us' \<Rightarrow> Inr ((uid, u\<lparr>days := Some (days_or_empty u)\<rparr>) # us'))"

text \<open>The block \<open>if (!parsed.version) { ... }\<close>, without the write to the file.  An absent
  \<open>users\<close> stays absent.\<close>

definition migrate :: "string \<Rightarrow> snapshot \<Rightarrow> failure + snapshot" where
  "migrate now p =
     (if s_version p = None \<or> s_version p = Some 0
      then (case migrate_users (case s_users p of None \<Rightarrow> [] | Some us \<Rightarrow> us) of
              Inl e \<Rightarrow> Inl e
            | Inr us' \<Rightarrow>
                Inr (p\<lparr>s_users := map_option (\<lambda>us. us') (s_users p),
                       s_version := Some 2,
                       s_updatedAt := Some now\<rparr>))
      else Inr p)"

text \<open>The defaults \<open>parsed.users ||= {}; parsed.createdAt ||= now; parsed.updatedAt ||= now\<close>
  (an empty string is falsy too).\<close>

definition str_or :: "string option \<Rightarrow> string \<Rightarrow> string" where
  "str_or x dflt = (case x of None \<Rightarrow> dflt | Some s \<Rightarrow> if s = [] then dflt else s)"

definition defaults :: "string \<Rightarrow> snapshot \<Rightarrow> ledger" where
  "defaults now p =
     \<lparr>users = (case s_users p of None \<Rightarrow> [] | Some us \<Rightarrow> us),
      createdAt = str_or (s_createdAt p) now,
      db_updatedAt = str_or (s_updatedAt p) now,
      version = s_version p\<rparr>"

text \<open>\<open>const seed = { users: {}, createdAt: now, updatedAt: now, version: 2 }\<close>\<close>

definition seed :: "string \<Rightarrow> ledger" where
  "seed now = \<lparr>users = [], createdAt = now, db_updatedAt = now, version = Some 2\<rparr>"

text \<open>\<open>readDbV2\<close>: the argument is \<open>None\<close> when reading or parsing the file throws.  Both
  that and the error of the migration end in the \<open>catch\<close>.\<close>

definition readDbV2 :: "string \<Rightarrow> snapshot option \<Rightarrow> ledger" where
  "readDbV2 now file =
     (case file of
        None \<Rightarrow> seed now
      | Some parsed \<Rightarrow>
          (case migrate now parsed of
             Inl e \<Rightarrow> seed now
           | Inr p \<Rightarrow> defaults now p))"

text \<open>The object that \<open>readDbV2\<close> returned, seen again as a parsed object.\<close>

definition as_parsed :: "ledger \<Rightarrow> snapshot" where
  "as_parsed d = \<lparr>s_users = Some (users d), s_createdAt = Some (createdAt d),
                  s_updatedAt = Some (db_updatedAt d), s_version = version d\<rparr>"

text \<open>What \<open>JSON.stringify(db)\<close> puts into the file, read back: the same object, every
  number through \<open>json_number\<close>.\<close>

definition json_user :: "user \<Rightarrow> user" where
  "json_user u = u\<lparr>total := map_option json_number (total u),
                    days := map_option (map (\<lambda>(k, v). (k, json_number v))) (days u)\<rparr>"

definition stored :: "ledger \<Rightarrow> snapshot" where
  "stored d = \<lparr>s_users = Some (map (\<lambda>(uid, u). (uid, json_user u)) (users d)),
               s_createdAt = Some (createdAt d),
               s_updatedAt = Some (db_updatedAt d), s_version = version d\<rparr>"

subsection \<open>The bot's state and its handlers (first program of \<open>index.js\<close>)\<close>

text \<open>
  The process keeps \<open>db\<close>, the set \<open>awaitingName\<close> and the map \<open>pendingNumber\<close>.
  A handler runs without interruption up to its first \<open>await\<close>, and every handler
  below mutates before it awaits, so a handler is a function from state to state,
  paired with the reply it sends.  Which handlers the framework offers a message to,
  and in which order, is not modelled: every handler may run in every state and
  guards itself, as in the source.
\<close>

datatype mode = Add | Sub

record state =
  db :: ledger
  awaitingName :: "string set"
  pendingNumber :: "string \<rightharpoonup> mode"

text \<open>The result of \<open>Number(text)\<close> after the test
  \<open>Number.isFinite(n) && Number.isInteger(n)\<close>: \<open>Integer n\<close> is the double of value
  \<open>n\<close>.  The test sets no upper bound, so \<open>9007199254740992\<close> and \<open>1e308\<close> pass.\<close>

datatype jsnum = Integer int | NonInteger

text \<open>The replies, one constructor for each message of the source.\<close>

datatype reply =
    NotRegistered        \<comment> \<open>requireRegistered: register first\<close>
  | WelcomeBack
  | AskName
  | Usage
  | InvalidAmount        \<comment> \<open>a positive integer (or, for /update, an integer) is needed\<close>
  | InvalidDateFormat    \<comment> \<open>/update: parseUserDate gave null\<close>
  | InvalidName          \<comment> \<open>the name must have 2 to 40 characters\<close>
  | CommandsBlocked      \<comment> \<open>a command while the name is awaited\<close>
  | NoRecords            \<comment> \<open>/update: no record for the user\<close>
  | NothingToSubtract    \<comment> \<open>/update: no data on this date, nothing to subtract\<close>
  | SubtractTooMuch      \<comment> \<open>/update: cannot subtract more than there is\<close>
  | TodayTooSmall        \<comment> \<open>button: today holds less than the amount to subtract\<close>
  | Thanks               \<comment> \<open>the name was stored\<close>
  | Added
  | Subtracted
  | Updated
  | AskNumber
  | PassedOn             \<comment> \<open>next(): the message is left to later handlers\<close>
  | Done

text \<open>The specification's error kind \<open>InsufficientDayBalance\<close> is the two refusals of a
  negative \<open>/update\<close>.\<close>

definition InsufficientDayBalance :: "reply \<Rightarrow> bool" where
  "InsufficientDayBalance r \<longleftrightarrow> r = NothingToSubtract \<or> r = SubtractTooMuch"

definition set_users :: "state \<Rightarrow> (string \<times> user) list \<Rightarrow> state" where
  "set_users st us = st\<lparr>db := (db st)\<lparr>users := us\<rparr>\<rparr>"

text \<open>\<open>bot.start\<close>: a user with a named record is greeted, any other user is asked
  for a name.\<close>

definition start :: "string \<Rightarrow> state \<Rightarrow> reply \<times> state" where
  "start userId st =
     (if isRegistered (db st) userId
      then (WelcomeBack, st\<lparr>awaitingName := awaitingName st - {userId}\<rparr>)
      else (AskName, st\<lparr>awaitingName := insert userId (awaitingName st)\<rparr>))"

text \<open>
  \<open>bot.command("stairs")\<close>: \<open>arg\<close> is \<open>None\<close> when nothing follows the command, else
  \<open>Number(args)\<close>.
  \<^verbatim>\<open>
  if (!requireRegistered(ctx)) return;
  if (!args) return ctx.reply("... /stairs <n> ...");
  const n = Number(args);
  if (!Number.isFinite(n) || !Number.isInteger(n) || n <= 0) return ctx.reply(...);
  addStairs(userId, ctx.from.username, n);
  \<close>
\<close>

definition stairs_cmd :: "string \<Rightarrow> string \<Rightarrow> string \<Rightarrow> string option \<Rightarrow> jsnum option \<Rightarrow> state \<Rightarrow> reply \<times> state" where
  "stairs_cmd now today userId username arg st =
     (if \<not> isRegistered (db st) userId then (NotRegistered, st)
      else case arg of
        None \<Rightarrow> (Usage, st)
      | Some NonInteger \<Rightarrow> (InvalidAmount, st)
      | Some (Integer n) \<Rightarrow>
          if n \<le> 0 then (InvalidAmount, st)
          else (Added, st\<lparr>db := addStairs now userId username n today (db st)\<rparr>))"

text \<open>
  The branch of \<open>bot.on("text")\<close> that takes a number after a button.  The entry of
  \<open>pendingNumber\<close> is already deleted when this runs.
  \<^verbatim>\<open>
  const n = Number(msg);
  if (!Number.isFinite(n) || !Number.isInteger(n) || n <= 0) return ctx.reply(...);
  const iso = todayKey();
  db.users[userId] ||= { name: ctx.from.username || NO_NAME, total: 0, days: {}, updatedAt: ... };
  const u = db.users[userId];
  u.days ||= {};
  const todayVal = u.days[iso] || 0;
  if (mode === "add") {
    u.days[iso] = todayVal + n;
    u.total = Object.values(u.days).reduce((a, v) => a + (v || 0), 0);
    u.updatedAt = new Date().toISOString();
  } else {
    if (n > todayVal) return ctx.reply(...);
    u.days[iso] = todayVal - n; // may become 0
    u.total = Object.values(u.days).reduce((a, v) => a + (v || 0), 0);
    u.updatedAt = new Date().toISOString();
  }
  \<close>
\<close>

definition pending_number :: "string \<Rightarrow> string \<Rightarrow> string \<Rightarrow> string option \<Rightarrow> mode \<Rightarrow> jsnum \<Rightarrow> state \<Rightarrow> reply \<times> state" where
  "pending_number now today userId username md num st =
     (case num of
        NonInteger \<Rightarrow> (InvalidAmount, st)
      | Integer n \<Rightarrow>
          if n \<le> 0 then (InvalidAmount, st)
          else
            (let u0 = (case map_of (users (db st)) userId of
                         None \<Rightarrow> fresh_user (name_or_default username) now
                       | Some u \<Rightarrow> u);
                 ds = days_or_empty u0;
                 u = u0\<lparr>days := Some ds\<rparr>;
                 todayVal = day_or0 ds today
             in case md of
                  Add \<Rightarrow>
                    (let ds' = AList.update today (dadd todayVal (Fin n)) ds;
                         u' = u\<lparr>days := Some ds', total := Some (sum_days ds'), updatedAt := now\<rparr>
                     in (Added, set_users st (AList.update userId u' (users (db st)))))
                | Sub \<Rightarrow>
                    if lt todayVal (Fin n)
                    then (TodayTooSmall, set_users st (AList.update userId u (users (db st))))
                    else
                      (let ds' = AList.update today (dadd todayVal (Fin (- n))) ds;
                           u' = u\<lparr>days := Some ds', total := Some (sum_days ds'), updatedAt := now\<rparr>
                       in (Subtracted, set_users st (AList.update userId u' (users (db st)))))))"

text \<open>
  The name-capture branch of \<open>bot.on("text")\<close> (lines 283 to 315):
  \<^verbatim>\<open>
  if (msg.startsWith("/")) { ...; return; }
  if (msg.length < 2 || msg.length > 40) { ...; return; }
  const now = new Date().toISOString();
  db.users[userId] = db.users[userId] || { name: msg, total: 0, days: {}, updatedAt: now };
  db.users[userId].name = msg;
  db.users[userId].updatedAt = now;
  awaitingName.delete(userId);
  \<close>
\<close>

definition capture_name :: "string \<Rightarrow> string \<Rightarrow> string \<Rightarrow> state \<Rightarrow> reply \<times> state" where
  "capture_name now userId msg st =
     (if startsWithSlash msg then (CommandsBlocked, st)
      else if length msg < 2 \<or> 40 < length msg then (InvalidName, st)
      else
        (let u0 = (case map_of (users (db st)) userId of
                     None \<Rightarrow> fresh_user msg now
                   | Some u \<Rightarrow> u);
             u' = u0\<lparr>name := msg, updatedAt := now\<rparr>
         in (Thanks, (set_users st (AList.update userId u' (users (db st))))
                       \<lparr>awaitingName := awaitingName st - {userId}\<rparr>)))"

text \<open>\<open>bot.on("text")\<close>: \<open>text\<close> is the message, \<open>num\<close> is \<open>Number(msg)\<close>.\<close>

definition on_text :: "string \<Rightarrow> string \<Rightarrow> string \<Rightarrow> string option \<Rightarrow> string \<Rightarrow> jsnum \<Rightarrow> state \<Rightarrow> reply \<times> state" where
  "on_text now today userId username text num st =
     (let msg = trim text in
      if userId \<in> awaitingName st then capture_name now userId msg st
      else case pendingNumber st userId of
        None \<Rightarrow> (PassedOn, st)
      | Some md \<Rightarrow>
          if startsWithSlash msg then (PassedOn, st)
          else pending_number now today userId username md num
                 (st\<lparr>pendingNumber := (pendingNumber st)(userId := None)\<rparr>))"

text \<open>
  \<open>bot.command("/update")\<close>: \<open>dateArg\<close> and \<open>amountArg\<close> are \<open>parts[1]\<close> and
  \<open>Number(parts[2])\<close>, \<open>None\<close> when the part is missing.
  \<^verbatim>\<open>
  const iso = parseUserDate(dateArg);
  if (!iso) return ctx.reply(...);
  const n = Number(amountArg);
  if (!Number.isFinite(n) || !Number.isInteger(n)) return ctx.reply(...);
  const u = db.users[userId] || null;
  if (!u) return ctx.reply(...);
  const current = u.days?.[iso] || 0;
  // Validate negatives: cannot reduce below zero and cannot subtract > current
  if (n < 0) {
    const take = Math.abs(n);
    if (current === 0) return ctx.reply(...);
    if (take > current) return ctx.reply(...);
  }
  // Apply update
  const now = new Date().toISOString();
  u.days ||= {};
  u.days[iso] = current + n;
  // If day becomes 0, keep it as 0 (do NOT delete - history stays explicit)
  if (u.days[iso] < 0) u.days[iso] = 0; // guard, though we block this above
  // Update totals consistently
  u.total = Object.values(u.days).reduce((acc, v) => acc + (v || 0), 0);
  u.updatedAt = now;
  \<close>
\<close>

definition update_cmd :: "string \<Rightarrow> int \<Rightarrow> string \<Rightarrow> string option \<Rightarrow> jsnum option \<Rightarrow> state \<Rightarrow> reply \<times> state" where
  "update_cmd now year userId dateArg amountArg st =
     (if \<not> isRegistered (db st) userId then (NotRegistered, st)
      else case (dateArg, amountArg) of
        (None, _) \<Rightarrow> (Usage, st)
      | (Some _, None) \<Rightarrow> (Usage, st)
      | (Some da, Some am) \<Rightarrow>
          (if da = [] then (Usage, st)
           else
             (case parseUserDate year da of
                None \<Rightarrow> (InvalidDateFormat, st)
              | Some dkey \<Rightarrow>
                  (case am of
                     NonInteger \<Rightarrow> (InvalidAmount, st)
                   | Integer n \<Rightarrow>
                       (case map_of (users (db st)) userId of
                          None \<Rightarrow> (NoRecords, st)
                        | Some u \<Rightarrow>
                            (let current = day_or0 (days_or_empty u) dkey in
                             if n < 0 \<and> current = Fin 0 then (NothingToSubtract, st)
                             else if n < 0 \<and> lt current (Fin (abs n)) then (SubtractTooMuch, st)
                             else
                               (let ds = days_or_empty u;
                                    v = dadd current (Fin n);
                                    ds' = AList.update dkey (if lt v (Fin 0) then Fin 0 else v) ds;
                                    u' = u\<lparr>days := Some ds', total := Some (sum_days ds'),
                                            updatedAt := now\<rparr>
                                in (Updated,
                                    set_users st (AList.update userId u' (users (db st)))))))))))"

text \<open>The buttons \<open>bot.hears("+ ...")\<close> and \<open>bot.hears("- ...")\<close>.\<close>

definition hears_button :: "mode \<Rightarrow> string \<Rightarrow> state \<Rightarrow> reply \<times> state" where
  "hears_button md userId st =
     (if \<not> isRegistered (db st) userId then (NotRegistered, st)
      else (AskNumber, st\<lparr>pendingNumber := (pendingNumber st)(userId \<mapsto> md)\<rparr>))"

text \<open>The task that \<open>saveDb\<close> queues stamps \<open>db.updatedAt\<close> before it writes.\<close>

definition save_task :: "string \<Rightarrow> state \<Rightarrow> reply \<times> state" where
  "save_task now st = (Done, st\<lparr>db := (db st)\<lparr>db_updatedAt := now\<rparr>\<rparr>)"

text \<open>The start of the process: the file is read, the two in-memory collections are
  empty.\<close>

definition boot :: "string \<Rightarrow> snapshot option \<Rightarrow> state" where
  "boot now file = \<lparr>db = readDbV2 now file, awaitingName = {}, pendingNumber = Map.empty\<rparr>"

text \<open>The events that change the state of a running process.  (The commands \<open>/stat\<close>,
  \<open>/list\<close>, \<open>/info\<close> and the two report buttons only read.)\<close>

datatype event =
    Start string
  | Stairs string "string option" "jsnum option"
  | Text string "string option" string jsnum
  | Update string "string option" "jsnum option"
  | Button mode string
  | SaveTask

record clock =
  c_now :: string
  c_today :: string
  c_year :: int

definition handle :: "clock \<Rightarrow> event \<Rightarrow> state \<Rightarrow> reply \<times> state" where
  "handle c ev st =
     (case ev of
        Start userId \<Rightarrow> start userId st
      | Stairs userId username arg \<Rightarrow> stairs_cmd (c_now c) (c_today c) userId username arg st
      | Text userId username text num \<Rightarrow> on_text (c_now c) (c_today c) userId username text num st
      | Update userId dateArg amountArg \<Rightarrow> update_cmd (c_now c) (c_year c) userId dateArg amountArg st
      | Button md userId \<Rightarrow> hears_button md userId st
      | SaveTask \<Rightarrow> save_task (c_now c) st)"

text \<open>A run of the bot: the events in order, each with the clock at its time.\<close>

fun run :: "(clock \<times> event) list \<Rightarrow> state \<Rightarrow> state" where
  "run [] st = st"
| "run ((c, ev) # evs) st = run evs (snd (handle c ev st))"

subsection \<open>The earlier generations\<close>

text \<open>
  Name capture in the second program of \<open>index.js\<close> (lines 998 to 1017): the record is
  replaced by a new one.
  \<^verbatim>\<open>
  if (!awaitingName.has(userId)) return;
  const raw = (ctx.message.text || "").trim();
  if (raw.length < 2 || raw.length > 40) return ctx.reply(...);
  db.users[userId] = { name: raw, total: 0, days: {}, updatedAt: new Date().toISOString() };
  awaitingName.delete(userId);
  \<close>
\<close>

definition on_text_v2 :: "string \<Rightarrow> string \<Rightarrow> string \<Rightarrow> state \<Rightarrow> reply \<times> state" where
  "on_text_v2 now userId text st =
     (if userId \<notin> awaitingName st then (Done, st)
      else
        (let raw = trim text in
         if length raw < 2 \<or> 40 < length raw then (InvalidName, st)
         else (Thanks, (set_users st (AList.update userId (fresh_user raw now) (users (db st))))
                         \<lparr>awaitingName := awaitingName st - {userId}\<rparr>)))"

text \<open>
  The first generation, \<open>src/unnamed/part_000\<close>: a record is
  \<open>{ name, total, updatedAt }\<close>, without \<open>days\<close>.  Name capture (lines 182 to 200)
  stores \<open>{ name: raw, total: 0, updatedAt: now }\<close>; \<open>/stairs\<close> (lines 132 to 167)
  adds to \<open>total\<close>; \<open>readDb\<close> (lines 232 to 248) fills in the defaults and has no
  migration.
\<close>

definition on_text_v3 :: "string \<Rightarrow> string \<Rightarrow> string \<Rightarrow> state \<Rightarrow> reply \<times> state" where
  "on_text_v3 now userId text st =
     (if userId \<notin> awaitingName st then (Done, st)
      else
        (let raw = trim text in
         if length raw < 2 \<or> 40 < length raw then (InvalidName, st)
         else (Thanks,
               (set_users st
                  (AList.update userId
                     \<lparr>name = raw, total = Some (Fin 0), days = None, updatedAt = now\<rparr>
                     (users (db st))))
                 \<lparr>awaitingName := awaitingName st - {userId}\<rparr>)))"

definition stairs_cmd_v3 :: "string \<Rightarrow> string \<Rightarrow> string option \<Rightarrow> jsnum option \<Rightarrow> state \<Rightarrow> reply \<times> state" where
  "stairs_cmd_v3 now userId username arg st =
     (if \<not> isRegistered (db st) userId then (NotRegistered, st)
      else case arg of
        None \<Rightarrow> (Usage, st)
      | Some NonInteger \<Rightarrow> (InvalidAmount, st)
      | Some (Integer n) \<Rightarrow>
          if n \<le> 0 then (InvalidAmount, st)
          else
            (let u = (case map_of (users (db st)) userId of
                        None \<Rightarrow> \<lparr>name = name_or_default username, total = Some (Fin 0),
                                  days = None, updatedAt = now\<rparr>
                      | Some u0 \<Rightarrow> u0);
                 u' = u\<lparr>total := Some (dadd (total_or0 u) (Fin n)), updatedAt := now\<rparr>
             in (Added, set_users st (AList.update userId u' (users (db st))))))"

definition readDb :: "string \<Rightarrow> snapshot option \<Rightarrow> ledger" where
  "readDb now file =
     (case file of
        None \<Rightarrow> \<lparr>users = [], createdAt = now, db_updatedAt = now, version = None\<rparr>
      | Some parsed \<Rightarrow> defaults now parsed)"

text \<open>The states of the first generation, from its empty data file
  \<open>{ users: {}, createdAt: now, updatedAt: now }\<close>.\<close>

inductive reachable_v3 :: "state \<Rightarrow> bool" where
  v3_init: "reachable_v3 \<lparr>db = readDb t None, awaitingName = {}, pendingNumber = Map.empty\<rparr>"
| v3_start: "reachable_v3 st \<Longrightarrow> reachable_v3 (snd (start userId st))"
| v3_text: "reachable_v3 st \<Longrightarrow> reachable_v3 (snd (on_text_v3 t userId text st))"
| v3_stairs: "reachable_v3 st \<Longrightarrow> reachable_v3 (snd (stairs_cmd_v3 t userId username arg st))"
| v3_save: "reachable_v3 st \<Longrightarrow> reachable_v3 (snd (save_task t st))"
| v3_restart: "reachable_v3 st \<Longrightarrow>
     reachable_v3 \<lparr>db = readDb t (Some (stored (db st))), awaitingName = {},
                   pendingNumber = Map.empty\<rparr>"

subsection \<open>Reachable states\<close>

text \<open>
  The bot starts on a missing or unreadable file, on the empty file that
  \<open>ensureDataFile\<close> writes, or on a file left by the first generation.  From there
  every event of the current program may happen, and so may the name capture of the
  second program, whose other handlers are those of the current one; and the process
  may be started again on the file that it has saved.
\<close>

inductive reachable :: "state \<Rightarrow> bool" where
  fresh: "reachable (boot t None)"
| ensured: "reachable (boot t (Some (stored (seed t0))))"
| legacy: "reachable_v3 st0 \<Longrightarrow> reachable (boot t (Some (stored (db st0))))"
| step: "reachable st \<Longrightarrow> reachable (snd (handle c ev st))"
| step_v2: "reachable st \<Longrightarrow> reachable (snd (on_text_v2 t userId text st))"
| restart: "reachable st \<Longrightarrow> reachable (boot t (Some (stored (db st))))"

subsection \<open>The invariants\<close>



text \<open>Every total is a safe integer that is not negative: an integer from 0 to
  \<open>Number.MAX_SAFE_INTEGER\<close>.\<close>

definition safe_total :: "user \<Rightarrow> bool" where
  "safe_total u \<longleftrightarrow>
     (case total u of
        Some (Fin t) \<Rightarrow> 0 \<le> t \<and> t \<le> MAX_SAFE_INTEGER
      | _ \<Rightarrow> False)"





text \<open>Day values that are integers from 0 on, and their sum as integers.\<close>

definition nat_days :: "(string \<times> number) list \<Rightarrow> bool" where
  "nat_days ds \<longleftrightarrow> list_all (\<lambda>(k, v). case v of Fin n \<Rightarrow> 0 \<le> n | _ \<Rightarrow> False) ds"

definition exact_sum :: "(string \<times> number) list \<Rightarrow> int" where
  "exact_sum ds = sum_list (map (\<lambda>(k, v). case v of Fin n \<Rightarrow> n | _ \<Rightarrow> 0) ds)"

text \<open>Every record has a non-empty name.\<close>

definition named :: "ledger \<Rightarrow> bool" where
  "named d \<longleftrightarrow> list_all (\<lambda>(uid, u). name u \<noteq> []) (users d)"


text \<open>Every record of \<open>us\<close> is still there in \<open>us'\<close>, with at least the same date keys.\<close>

definition keys_kept :: "(string \<times> user) list \<Rightarrow> (string \<times> user) list \<Rightarrow> bool" where
  "keys_kept us us' \<longleftrightarrow>
     (\<forall>uid u. map_of us uid = Some u \<longrightarrow>
        (\<exists>u'. map_of us' uid = Some u' \<and>
              fst ` set (days_or_empty u) \<subseteq> fst ` set (days_or_empty u')))"

text \<open>A ledger of the first generation: no \<open>version\<close>, no record with \<open>days\<close>.\<close>

definition legacy_inv :: "ledger \<Rightarrow> bool" where
  "legacy_inv d \<longleftrightarrow> version d = None \<and> list_all (\<lambda>(uid, u). days u = None) (users d)"

subsection \<open>Scenarios\<close>

text \<open>The scenarios A to C of the specification, as one run from an empty ledger:
  user 42 registers as Vadym, logs 120 on 1 March and 80 on 2 March, then takes 30
  back from 2 March.\<close>

definition day1 :: clock where
  "day1 = \<lparr>c_now = ''2024-03-01T10:00:00.000Z'', c_today = ''2024-03-01'', c_year = 2024\<rparr>"

definition day2 :: clock where
  "day2 = \<lparr>c_now = ''2024-03-02T10:00:00.000Z'', c_today = ''2024-03-02'', c_year = 2024\<rparr>"

definition scenarioC_events :: "(clock \<times> event) list" where
  "scenarioC_events =
     [(day1, Start ''42''),
      (day1, Text ''42'' None ''Vadym'' NonInteger),
      (day1, Stairs ''42'' None (Some (Integer 120))),
      (day2, Stairs ''42'' None (Some (Integer 80))),
      (day2, Update ''42'' (Some ''2024-03-02'') (Some (Integer (- 30))))]"

definition scenarioC :: state where
  "scenarioC = run scenarioC_events (boot ''2024-03-01T09:00:00.000Z'' None)"

text \<open>The record of user 42 at the end of scenario C.\<close>

definition vadym :: user where
  "vadym = \<lparr>name = ''Vadym'', total = Some (Fin 170),
            days = Some [(''2024-03-01'', Fin 120), (''2024-03-02'', Fin 50)],
            updatedAt = ''2024-03-02T10:00:00.000Z''\<rparr>"

text \<open>The state in which day 2024-01-01 of user 42 holds 3.\<close>

definition january :: state where
  "january = run [(\<lparr>c_now = ''2024-01-01T10:00:00.000Z'', c_today = ''2024-01-01'', c_year = 2024\<rparr>,
                    Start ''42''),
                  (\<lparr>c_now = ''2024-01-01T10:00:00.000Z'', c_today = ''2024-01-01'', c_year = 2024\<rparr>,
                    Text ''42'' None ''Vadym'' NonInteger),
                  (\<lparr>c_now = ''2024-01-01T10:00:00.000Z'', c_today = ''2024-01-01'', c_year = 2024\<rparr>,
                    Stairs ''42'' None (Some (Integer 3)))]
               (boot ''2024-01-01T09:00:00.000Z'' None)"



text \<open>Scenario E of the specification: a file without a version tag, one user with total
  40 and no day.\<close>

definition scenarioE :: snapshot where
  "scenarioE = \<lparr>s_users = Some [(''7'', \<lparr>name = ''X'', total = Some (Fin 40), days = Some [],
                                         updatedAt = ''2024-04-30T12:00:00.000Z''\<rparr>)],
                s_createdAt = None, s_updatedAt = None, s_version = None\<rparr>"

text \<open>A file without a version tag in which no record needs seeding: user 7 with total 0
  and no \<open>days\<close> property, user 8 with one day.\<close>

definition plain_file :: snapshot where
  "plain_file =
     \<lparr>s_users = Some [(''7'', \<lparr>name = ''X'', total = Some (Fin 0), days = None,
                              updatedAt = ''2024-04-30T12:00:00.000Z''\<rparr>),
                      (''8'', \<lparr>name = ''Y'', total = Some (Fin 5), days = Some [(''2024-04-30'', Fin 5)],
                              updatedAt = ''2024-04-30T12:00:00.000Z''\<rparr>)],
      s_createdAt = Some ''2024-04-01T07:00:00.000Z'', s_updatedAt = None, s_version = None\<rparr>"

definition plain_migrated :: snapshot where
  "plain_migrated =
     \<lparr>s_users = Some [(''7'', \<lparr>name = ''X'', total = Some (Fin 0), days = Some [],
                              updatedAt = ''2024-04-30T12:00:00.000Z''\<rparr>),
                      (''8'', \<lparr>name = ''Y'', total = Some (Fin 5), days = Some [(''2024-04-30'', Fin 5)],
                              updatedAt = ''2024-04-30T12:00:00.000Z''\<rparr>)],
      s_createdAt = Some ''2024-04-01T07:00:00.000Z'',
      s_updatedAt = Some ''2024-05-01T07:00:00.000Z'', s_version = Some 2\<rparr>"

text \<open>A data file whose record has a total (5) that is not the sum of its days (2), and
  the state after loading it.\<close>

definition drifted_file :: snapshot where
  "drifted_file =
     \<lparr>s_users = Some [(''42'', \<lparr>name = ''Vadym'', total = Some (Fin 5),
                               days = Some [(''2024-02-01'', Fin 2)],
                               updatedAt = ''2024-02-01T07:00:00.000Z''\<rparr>)],
      s_createdAt = Some ''2024-02-01T07:00:00.000Z'',
      s_updatedAt = Some ''2024-02-01T07:00:00.000Z'', s_version = Some 2\<rparr>"

definition drifted :: state where
  "drifted = boot ''2024-03-01T07:00:00.000Z'' (Some drifted_file)"

text \<open>The same state after user 42 has pressed the \<open>+\<close> button.\<close>

definition plus_pressed :: state where
  "plus_pressed = snd (hears_button Add ''42'' drifted)"



section \<open>Proofs\<close>

subsection \<open>Rounding\<close>

declare roll_forward.simps [simp del] roll_back.simps [simp del] expo.simps [simp del]

lemma round_even_small: "a < 2 ^ 53 \<Longrightarrow> round_even a = a"
  by (simp add: round_even_def expo.simps [of a])

text \<open>Below \<open>2^53\<close> the sum of two integers is exact.\<close>

lemma fl_exact: "\<bar>x\<bar> < 2 ^ 53 \<Longrightarrow> fl x = Fin x"
  by (simp add: fl_def round_even_small Let_def)








lemma or0_simps [simp]:
  "or0 (Fin n) = Fin n" "or0 PInf = PInf" "or0 NInf = NInf" "or0 NaN = Fin 0"
  by (simp_all add: or0_def)




subsection \<open>Association lists and sums\<close>

lemma list_all_update:
  "list_all P xs \<Longrightarrow> P (k, v) \<Longrightarrow> list_all P (AList.update k v xs)"
  by (induction xs) auto


lemma list_all_map_of: "list_all P xs \<Longrightarrow> map_of xs k = Some v \<Longrightarrow> P (k, v)"
  by (auto simp: list_all_iff dest: map_of_SomeD)

lemma list_all_map_entries:
  "list_all (\<lambda>(k, v). P v) xs \<Longrightarrow> (\<And>v. P v \<Longrightarrow> Q (f v)) \<Longrightarrow>
   list_all (\<lambda>(k, v). Q v) (map (\<lambda>(k, v). (k, f v)) xs)"
  by (induction xs) auto

lemma map_of_map_entries:
  "map_of (map (\<lambda>(k, v). (k, f v)) xs) k = map_option f (map_of xs k)"
  by (induction xs) auto





text \<open>While the exact sum stays below \<open>2^53\<close>, the program's sum is the exact sum.\<close>

lemma foldl_exact:
  "0 \<le> s \<Longrightarrow> nat_days ds \<Longrightarrow> s + exact_sum ds < 2 ^ 53 \<Longrightarrow>
   foldl (\<lambda>a v. dadd a (or0 v)) (Fin s) (map snd ds) = Fin (s + exact_sum ds)"
proof (induction ds arbitrary: s)
  case Nil
  then show ?case by (simp add: exact_sum_def)
next
  case (Cons kv ds)
  obtain k v where kv: "kv = (k, v)" by (cases kv)
  from Cons.prems(2) kv obtain n where v: "v = Fin n" and n: "0 \<le> n" and rest: "nat_days ds"
    by (auto simp: nat_days_def split: number.splits)
  have es: "exact_sum ((k, Fin n) # ds) = n + exact_sum ds" by (simp add: exact_sum_def)
  from rest have "0 \<le> exact_sum ds"
    by (induction ds) (auto simp: nat_days_def exact_sum_def split: number.splits)
  with Cons.prems(1,3) n es have small: "\<bar>s + n\<bar> < 2 ^ 53" by (simp add: kv v)
  have "foldl (\<lambda>a v. dadd a (or0 v)) (Fin (s + n)) (map snd ds) = Fin (s + n + exact_sum ds)"
    using Cons.prems(1,3) n rest es by (intro Cons.IH) (simp_all add: kv v)
  with small show ?case by (simp add: kv v fl_exact es)
qed

lemma exact_sum_nonneg: "nat_days ds \<Longrightarrow> 0 \<le> exact_sum ds"
  by (induction ds) (auto simp: nat_days_def exact_sum_def split: number.splits)

lemma sum_days_exact:
  "nat_days ds \<Longrightarrow> exact_sum ds < 2 ^ 53 \<Longrightarrow> sum_days ds = Fin (exact_sum ds)"
  using foldl_exact [of 0 ds] by (simp add: sum_days_def)



text \<open>One day of a list of integers that are not negative.\<close>

lemma day_or0_nat:
  "nat_days ds \<Longrightarrow>
   \<exists>c. day_or0 ds k = Fin c \<and> 0 \<le> c \<and> c \<le> exact_sum ds \<and>
       (\<forall>v. exact_sum (AList.update k (Fin v) ds) = exact_sum ds - c + v)"
proof (induction ds)
  case Nil
  show ?case by (simp add: day_or0_def exact_sum_def)
next
  case (Cons kv ds)
  obtain k' v' where kv: "kv = (k', v')" by (cases kv)
  from Cons.prems kv obtain n where v': "v' = Fin n" and n: "0 \<le> n" and rest: "nat_days ds"
    by (auto simp: nat_days_def split: number.splits)
  from rest have nn: "0 \<le> exact_sum ds" by (rule exact_sum_nonneg)
  show ?case
  proof (cases "k' = k")
    case True
    with n nn show ?thesis by (simp add: kv v' day_or0_def exact_sum_def)
  next
    case False
    from Cons.IH [OF rest] obtain c where c: "day_or0 ds k = Fin c" "0 \<le> c" "c \<le> exact_sum ds"
      "\<forall>v. exact_sum (AList.update k (Fin v) ds) = exact_sum ds - c + v"
      by blast
    with False n show ?thesis by (simp add: kv v' day_or0_def exact_sum_def)
  qed
qed


lemma days_or_empty_simps:
  "days_or_empty (u\<lparr>days := Some ds\<rparr>) = ds"
  "days_or_empty (u\<lparr>total := tt\<rparr>) = days_or_empty u"
  "days_or_empty (u\<lparr>name := nm\<rparr>) = days_or_empty u"
  "days_or_empty (u\<lparr>updatedAt := t\<rparr>) = days_or_empty u"
  "days_or_empty (fresh_user nm t) = []"
  by (simp_all add: days_or_empty_def fresh_user_def)

lemma db_set_users [simp]: "db (set_users st us) = (db st)\<lparr>users := us\<rparr>"
  by (simp add: set_users_def)

subsection \<open>The invariant of a record, handler by handler\<close>
























subsection \<open>Loading\<close>

lemma migrate_users_Inr:
  "migrate_users us = Inr us' \<Longrightarrow>
   us' = map (\<lambda>(uid, u). (uid, u\<lparr>days := Some (days_or_empty u)\<rparr>)) us \<and>
   list_all (\<lambda>(uid, u). \<not> needs_seed u) us"
  by (induction us arbitrary: us') (auto split: if_splits sum.splits)

lemma failure_eq [simp]: "(e :: failure) = ReferenceError" "ReferenceError = e"
  by (cases e, simp)+

lemma migrate_users_Inl:
  "migrate_users us = Inl e \<longleftrightarrow> (\<exists>(uid, u) \<in> set us. needs_seed u)"
  by (induction us) (auto split: sum.splits)

lemma migrate_users_ok:
  "list_all (\<lambda>(uid, u). \<not> needs_seed u) us \<Longrightarrow>
   migrate_users us = Inr (map (\<lambda>(uid, u). (uid, u\<lparr>days := Some (days_or_empty u)\<rparr>)) us)"
  by (induction us) auto

lemma users_readDbV2:
  "users (readDbV2 t (Some p)) =
     (if s_version p = None \<or> s_version p = Some 0
      then (case migrate_users (case s_users p of None \<Rightarrow> [] | Some us \<Rightarrow> us) of
              Inl e \<Rightarrow> [] | Inr us' \<Rightarrow> us')
      else (case s_users p of None \<Rightarrow> [] | Some us \<Rightarrow> us))"
  by (auto simp: readDbV2_def migrate_def defaults_def seed_def split: sum.splits option.splits)

lemma users_readDbV2_stored:
  "users (readDbV2 t (Some (stored d))) =
     (if version d = None \<or> version d = Some 0
      then (case migrate_users (map (\<lambda>(uid, u). (uid, json_user u)) (users d)) of
              Inl e \<Rightarrow> [] | Inr us' \<Rightarrow> us')
      else map (\<lambda>(uid, u). (uid, json_user u)) (users d))"
  by (simp add: users_readDbV2 stored_def)

lemma users_reload_kept:
  "version d \<noteq> None \<Longrightarrow> version d \<noteq> Some 0 \<Longrightarrow>
   users (readDbV2 t (Some (stored d))) = map (\<lambda>(uid, u). (uid, json_user u)) (users d)"
  by (auto simp: users_readDbV2_stored)




lemma safe_total_days [simp]: "safe_total (u\<lparr>days := ds\<rparr>) = safe_total u"
  by (simp add: safe_total_def)



subsection \<open>The first generation and its migration\<close>

lemma legacy_inv_update:
  "legacy_inv d \<Longrightarrow> days u = None \<Longrightarrow> legacy_inv (d\<lparr>users := AList.update k u (users d)\<rparr>)"
  by (simp add: legacy_inv_def list_all_update)

lemma legacy_inv_lookup: "legacy_inv d \<Longrightarrow> map_of (users d) k = Some u \<Longrightarrow> days u = None"
  by (auto simp: legacy_inv_def dest: list_all_map_of)

lemma legacy_inv_stairs:
  assumes "legacy_inv (db st)"
  shows "legacy_inv (db (snd (stairs_cmd_v3 t uid hint arg st)))"
proof -
  define u where "u = (case map_of (users (db st)) uid of
       None \<Rightarrow> \<lparr>name = name_or_default hint, total = Some (Fin 0), days = None, updatedAt = t\<rparr>
     | Some u0 \<Rightarrow> u0)"
  have "days u = None"
    using assms by (auto simp: u_def dest: legacy_inv_lookup split: option.splits)
  then have "\<And>x. legacy_inv ((db st)\<lparr>users := AList.update uid
         (u\<lparr>total := x, updatedAt := t\<rparr>) (users (db st))\<rparr>)"
    using assms by (simp add: legacy_inv_update)
  then have step: "\<And>x. legacy_inv (db (set_users st (AList.update uid
         (u\<lparr>total := x, updatedAt := t\<rparr>) (users (db st)))))"
    by simp
  show ?thesis
  proof (cases arg)
    case None
    with assms show ?thesis by (simp add: stairs_cmd_v3_def)
  next
    case (Some a)
    show ?thesis
    proof (cases a)
      case NonInteger
      with Some assms show ?thesis by (simp add: stairs_cmd_v3_def)
    next
      case (Integer n)
      with Some assms step show ?thesis
        unfolding stairs_cmd_v3_def Let_def u_def by (simp del: db_set_users)
    qed
  qed
qed

lemma legacy_inv_text:
  "legacy_inv (db st) \<Longrightarrow> legacy_inv (db (snd (on_text_v3 t uid body st)))"
  by (simp add: on_text_v3_def Let_def legacy_inv_update)

lemma legacy_inv_readDb:
  "legacy_inv d \<Longrightarrow> legacy_inv (readDb t (Some (stored d)))"
  by (auto simp: legacy_inv_def readDb_def defaults_def stored_def json_user_def list_all_iff)

lemma reachable_v3_legacy: "reachable_v3 st \<Longrightarrow> legacy_inv (db st)"
proof (induction rule: reachable_v3.induct)
  case (v3_init t)
  show ?case by (simp add: legacy_inv_def readDb_def)
next
  case (v3_start st userId)
  from v3_start.IH show ?case by (simp add: start_def)
next
  case (v3_text st t userId body)
  from v3_text.IH show ?case by (rule legacy_inv_text)
next
  case (v3_stairs st t userId username arg)
  from v3_stairs.IH show ?case by (rule legacy_inv_stairs)
next
  case (v3_save st t)
  from v3_save.IH show ?case by (simp add: save_task_def legacy_inv_def)
next
  case (v3_restart st t)
  from v3_restart.IH show ?case by (simp add: legacy_inv_readDb)
qed







subsection \<open>Names\<close>

lemma NO_NAME_nonempty: "NO_NAME \<noteq> []"
  by (simp add: NO_NAME_def)

lemma name_or_default_nonempty: "name_or_default hint \<noteq> []"
  by (simp add: name_or_default_def NO_NAME_nonempty split: option.splits)

lemma named_update:
  "named d \<Longrightarrow> name u \<noteq> [] \<Longrightarrow> named (d\<lparr>users := AList.update k u (users d)\<rparr>)"
  by (simp add: named_def list_all_update)

lemma named_lookup: "named d \<Longrightarrow> map_of (users d) k = Some u \<Longrightarrow> name u \<noteq> []"
  by (auto simp: named_def dest: list_all_map_of)

lemma named_addStairs: "named d \<Longrightarrow> named (addStairs t uid hint a k d)"
  unfolding addStairs_def Let_def
  by (auto simp: fresh_user_def name_or_default_nonempty intro!: named_update
      dest: named_lookup split: option.splits)

lemma named_stairs_cmd:
  "named (db st) \<Longrightarrow> named (db (snd (stairs_cmd t td uid hint arg st)))"
  by (auto simp: stairs_cmd_def named_addStairs split: option.splits jsnum.splits)

lemma named_pending_number:
  assumes "named (db st)"
  shows "named (db (snd (pending_number t td uid hint md num st)))"
proof -
  define u0 where "u0 = (case map_of (users (db st)) uid of
                         None \<Rightarrow> fresh_user (name_or_default hint) t | Some u \<Rightarrow> u)"
  have "name u0 \<noteq> []"
    using assms
    by (auto simp: u0_def fresh_user_def name_or_default_nonempty dest: named_lookup
        split: option.splits)
  with assms have "\<And>ds tot ts. named ((db st)\<lparr>users := AList.update uid
       (u0\<lparr>days := ds, total := tot, updatedAt := ts\<rparr>) (users (db st))\<rparr>)"
    and "\<And>ds. named ((db st)\<lparr>users := AList.update uid (u0\<lparr>days := ds\<rparr>) (users (db st))\<rparr>)"
    by (simp_all add: named_update)
  with assms show ?thesis
    unfolding pending_number_def Let_def u0_def
    by (simp split: jsnum.splits mode.splits)
qed

lemma named_capture_name:
  assumes "named (db st)"
  shows "named (db (snd (capture_name t uid msg st)))"
proof -
  have "\<And>u. 2 \<le> length msg \<Longrightarrow> named ((db st)\<lparr>users := AList.update uid
       (u\<lparr>name := msg, updatedAt := t\<rparr>) (users (db st))\<rparr>)"
    using assms by (intro named_update) auto
  with assms show ?thesis
    by (simp add: capture_name_def Let_def not_less)
qed

lemma capture_name_thanks:
  "fst (capture_name t userId msg st) = Thanks \<Longrightarrow> 2 \<le> length msg \<and> length msg \<le> 40"
  by (simp add: capture_name_def Let_def split: if_splits)

lemma named_on_text:
  assumes "named (db st)"
  shows "named (db (snd (on_text t td uid hint body num st)))"
proof -
  have "named (db (st\<lparr>pendingNumber := (pendingNumber st)(uid := None)\<rparr>))"
    using assms by simp
  then have "\<And>md. named (db (snd (pending_number t td uid hint md num
                 (st\<lparr>pendingNumber := (pendingNumber st)(uid := None)\<rparr>))))"
    by (rule named_pending_number)
  with assms named_capture_name [OF assms] show ?thesis
    by (simp add: on_text_def Let_def split: option.splits)
qed

lemma named_update_cmd:
  assumes "named (db st)"
  shows "named (db (snd (update_cmd t yr uid da am st)))"
proof -
  have "named ((db st)\<lparr>users := AList.update uid
       (u\<lparr>days := ds, total := tot, updatedAt := ts\<rparr>) (users (db st))\<rparr>)"
    if "map_of (users (db st)) uid = Some u" for u ds tot ts
    using assms that by (intro named_update) (auto dest: named_lookup)
  with assms show ?thesis
    unfolding update_cmd_def Let_def
    by (auto split: option.splits jsnum.splits)
qed

lemma name_json_user [simp]: "name (json_user u) = name u"
  by (simp add: json_user_def)

lemma named_map:
  "list_all (\<lambda>(uid, u). name u \<noteq> []) us \<Longrightarrow> (\<And>u. name (g u) = name u) \<Longrightarrow>
   list_all (\<lambda>(uid, u). name u \<noteq> []) (map (\<lambda>(uid, u). (uid, g u)) us)"
  by (induction us) auto

lemma named_reload: "named d \<Longrightarrow> named (readDbV2 t (Some (stored d)))"
proof -
  assume n: "named d"
  let ?js = "map (\<lambda>(uid, u). (uid, json_user u)) (users d)"
  from n have js: "list_all (\<lambda>(uid, u). name u \<noteq> []) ?js"
    unfolding named_def by (rule named_map) simp
  show ?thesis
  proof (cases "migrate_users ?js")
    case (Inl e)
    with js show ?thesis by (simp add: named_def users_readDbV2_stored)
  next
    case (Inr us')
    from migrate_users_Inr [OF Inr]
    have "us' = map (\<lambda>(uid, u). (uid, u\<lparr>days := Some (days_or_empty u)\<rparr>)) ?js" by simp
    moreover from js have "list_all (\<lambda>(uid, u). name u \<noteq> [])
        (map (\<lambda>(uid, u). (uid, u\<lparr>days := Some (days_or_empty u)\<rparr>)) ?js)"
      by (rule named_map) simp
    ultimately show ?thesis using js Inr by (simp add: named_def users_readDbV2_stored)
  qed
qed

lemma named_readDb: "named d \<Longrightarrow> named (readDb t (Some (stored d)))"
  unfolding named_def readDb_def by (simp add: defaults_def stored_def named_map)

lemma named_seed: "named (seed t)"
  by (simp add: named_def seed_def)

lemma named_handle: "named (db st) \<Longrightarrow> named (db (snd (handle c ev st)))"
  by (cases ev)
    (simp_all add: handle_def start_def hears_button_def save_task_def
      named_stairs_cmd named_on_text named_update_cmd
      named_def [of "_\<lparr>db_updatedAt := _\<rparr>"] named_def [of "db _", symmetric])

lemma named_on_text_v2:
  assumes "named (db st)"
  shows "named (db (snd (on_text_v2 t uid body st)))"
proof -
  have "2 \<le> length (trim body) \<Longrightarrow> named ((db st)\<lparr>users := AList.update uid
       (fresh_user (trim body) t) (users (db st))\<rparr>)"
    using assms by (intro named_update) (auto simp: fresh_user_def)
  with assms show ?thesis
    by (simp add: on_text_v2_def Let_def not_less)
qed

lemma named_on_text_v3:
  assumes "named (db st)"
  shows "named (db (snd (on_text_v3 t uid body st)))"
proof -
  have "2 \<le> length (trim body) \<Longrightarrow> named ((db st)\<lparr>users := AList.update uid
       \<lparr>name = trim body, total = Some (Fin 0), days = None, updatedAt = t\<rparr> (users (db st))\<rparr>)"
    using assms by (intro named_update) auto
  with assms show ?thesis
    by (simp add: on_text_v3_def Let_def not_less)
qed

lemma named_stairs_cmd_v3:
  assumes "named (db st)"
  shows "named (db (snd (stairs_cmd_v3 t uid hint arg st)))"
proof -
  define u where "u = (case map_of (users (db st)) uid of
       None \<Rightarrow> \<lparr>name = name_or_default hint, total = Some (Fin 0), days = None, updatedAt = t\<rparr>
     | Some u0 \<Rightarrow> u0)"
  have "name u \<noteq> []"
    using assms
    by (auto simp: u_def name_or_default_nonempty dest: named_lookup split: option.splits)
  with assms have step: "\<And>tot. named (db (set_users st (AList.update uid
         (u\<lparr>total := tot, updatedAt := t\<rparr>) (users (db st)))))"
    by (simp add: named_update)
  show ?thesis
  proof (cases arg)
    case None
    with assms show ?thesis by (simp add: stairs_cmd_v3_def)
  next
    case (Some a)
    show ?thesis
    proof (cases a)
      case NonInteger
      with Some assms show ?thesis by (simp add: stairs_cmd_v3_def)
    next
      case (Integer n)
      with Some assms step show ?thesis
        unfolding stairs_cmd_v3_def Let_def u_def by (simp del: db_set_users)
    qed
  qed
qed

lemma reachable_v3_named: "reachable_v3 st \<Longrightarrow> named (db st)"
proof (induction rule: reachable_v3.induct)
  case (v3_init t)
  show ?case by (simp add: named_def readDb_def)
next
  case (v3_start st userId)
  from v3_start.IH show ?case by (simp add: start_def)
next
  case (v3_text st t userId body)
  from v3_text.IH show ?case by (rule named_on_text_v3)
next
  case (v3_stairs st t userId username arg)
  from v3_stairs.IH show ?case by (rule named_stairs_cmd_v3)
next
  case (v3_save st t)
  from v3_save.IH show ?case by (simp add: save_task_def named_def)
next
  case (v3_restart st t)
  from v3_restart.IH show ?case by (simp add: named_readDb)
qed

lemma reachable_named: "reachable st \<Longrightarrow> named (db st)"
proof (induction rule: reachable.induct)
  case (fresh t)
  show ?case by (simp add: boot_def readDbV2_def seed_def named_def)
next
  case (ensured t t0)
  show ?case by (simp add: boot_def named_reload named_seed)
next
  case (legacy st0 t)
  then have "named (db st0)" by (rule reachable_v3_named)
  then show ?case by (simp add: boot_def named_reload)
next
  case (step st c ev)
  from step.IH show ?case by (rule named_handle)
next
  case (step_v2 st t userId body)
  from step_v2.IH show ?case by (rule named_on_text_v2)
next
  case (restart st t)
  from restart.IH show ?case by (simp add: boot_def named_reload)
qed

lemma registered_iff: "named d \<Longrightarrow> isRegistered d userId \<longleftrightarrow> map_of (users d) userId \<noteq> None"
  by (auto simp: isRegistered_def dest: named_lookup split: option.splits)

lemma reachable_run: "reachable st \<Longrightarrow> reachable (run evs st)"
proof (induction evs arbitrary: st)
  case Nil
  then show ?case by simp
next
  case (Cons e evs)
  obtain c ev where e: "e = (c, ev)" by (cases e)
  from Cons.prems have "reachable (snd (handle c ev st))" by (rule reachable.step)
  then have "reachable (run evs (snd (handle c ev st)))" by (rule Cons.IH)
  with e show ?case by simp
qed

subsection \<open>A user whose name is awaited has no record\<close>


















subsection \<open>Parsing dates\<close>

lemma matches_Nil: "matches [] s \<longleftrightarrow> s = []"
  by (cases s) simp_all

lemma matches_D: "matches (D # ps) s \<longleftrightarrow> (\<exists>c cs. s = c # cs \<and> is_digit c \<and> matches ps cs)"
  by (cases s) simp_all

lemma matches_L: "matches (L a # ps) s \<longleftrightarrow> (\<exists>cs. s = a # cs \<and> matches ps cs)"
  by (cases s) auto

lemma matches_nonempty: "matches (p # ps) s \<Longrightarrow> s \<noteq> []"
  by (cases s) auto

lemma matches_hd_digit: "matches (D # ps) s \<Longrightarrow> is_digit (hd s)"
  by (cases s) auto

lemma matches_last_digit: "matches ps s \<Longrightarrow> ps \<noteq> [] \<Longrightarrow> last ps = D \<Longrightarrow> is_digit (last s)"
proof (induction ps s rule: matches.induct)
  case 1
  then show ?case by simp
next
  case (2 ps c cs)
  then show ?case by (cases ps; cases cs) auto
next
  case (3 a ps c cs)
  then show ?case by (cases ps; cases cs) auto
qed simp_all

lemma digit_not_space: "is_digit c \<Longrightarrow> \<not> is_space c"
  by (auto simp: is_digit_def is_space_def)


lemma trim_id: "s \<noteq> [] \<Longrightarrow> \<not> is_space (hd s) \<Longrightarrow> \<not> is_space (last s) \<Longrightarrow> trim s = s"
proof -
  assume s: "s \<noteq> []" and h: "\<not> is_space (hd s)" and l: "\<not> is_space (last s)"
  from s h have 1: "dropWhile is_space s = s" by (cases s) simp_all
  from s l have 2: "dropWhile is_space (rev s) = rev s"
    by (cases "rev s") (simp_all add: hd_rev [symmetric])
  show ?thesis by (simp add: trim_def 1 2)
qed

lemma trim_matches:
  assumes "matches (D # ps) s" "last (D # ps) = D"
  shows "trim s = s"
proof (rule trim_id)
  from assms(1) show "s \<noteq> []" by (rule matches_nonempty)
  from assms(1) have "is_digit (hd s)" by (rule matches_hd_digit)
  then show "\<not> is_space (hd s)" by (rule digit_not_space)
  from assms have "is_digit (last s)" by (intro matches_last_digit [of "D # ps"]) simp_all
  then show "\<not> is_space (last s)" by (rule digit_not_space)
qed


lemma trim_DM: "DM_RE s \<Longrightarrow> trim s = s"
  unfolding DM_RE_def by (erule trim_matches) simp

lemma DM_RE_shape:
  "DM_RE s \<longleftrightarrow>
     (\<exists>a b c d. s = [a, b, CHR ''.'', c, d] \<and> is_digit a \<and> is_digit b \<and> is_digit c \<and> is_digit d)"
  unfolding DM_RE_def matches_D matches_L matches_Nil by auto






lemma parse_DM:
  "DM_RE s \<Longrightarrow> \<exists>k. parseUserDate yr s = Some k"
  by (auto simp: parseUserDate_def trim_DM DM_RE_shape)



lemma parse_nonempty: "parseUserDate yr da = Some k \<Longrightarrow> da \<noteq> []"
  by (auto simp: parseUserDate_def trim_def ISO_RE_def DM_RE_def)





subsection \<open>Date keys are kept\<close>

lemma keys_kept_refl: "keys_kept us us"
  by (simp add: keys_kept_def)

lemma keys_kept_trans: "keys_kept a b \<Longrightarrow> keys_kept b c \<Longrightarrow> keys_kept a c"
  unfolding keys_kept_def by (meson subset_trans)

lemma keys_kept_update:
  assumes "\<And>u. map_of us k = Some u \<Longrightarrow>
             fst ` set (days_or_empty u) \<subseteq> fst ` set (days_or_empty u')"
  shows "keys_kept us (AList.update k u' us)"
  using assms by (auto simp: keys_kept_def AList.update_conv')

lemma keys_update: "fst ` set ds \<subseteq> fst ` set (AList.update k v ds)"
  by (auto simp: AList.dom_update)

lemma keys_kept_new: "map_of us uid = None \<Longrightarrow> keys_kept us (AList.update uid u' us)"
  by (rule keys_kept_update) simp

lemma keys_kept_set_day:
  "map_of us uid = Some u \<Longrightarrow>
   keys_kept us (AList.update uid
     (u\<lparr>days := Some (AList.update k v (days_or_empty u)), total := tt, updatedAt := t\<rparr>) us)"
  by (rule keys_kept_update) (simp add: days_or_empty_simps keys_update)

lemma keys_kept_set_day':
  "map_of us uid = Some u \<Longrightarrow>
   keys_kept us (AList.update uid
     (u\<lparr>total := tt, days := Some (AList.update k v (days_or_empty u)), updatedAt := t\<rparr>) us)"
  by (rule keys_kept_update) (simp add: days_or_empty_simps keys_update)

lemma keys_kept_same_days:
  "map_of us uid = Some u \<Longrightarrow>
   keys_kept us (AList.update uid (u\<lparr>days := Some (days_or_empty u)\<rparr>) us)"
  "map_of us uid = Some u \<Longrightarrow>
   keys_kept us (AList.update uid (u\<lparr>name := nm, updatedAt := t\<rparr>) us)"
  by (rule keys_kept_update, simp add: days_or_empty_simps)+

lemmas keys_kept_simps = keys_kept_refl keys_kept_new keys_kept_set_day keys_kept_set_day'
  keys_kept_same_days

lemma keys_kept_addStairs: "keys_kept (users d) (users (addStairs t uid hint a k d))"
  unfolding addStairs_def Let_def
  by (simp add: keys_kept_simps split: option.splits)

lemma keys_kept_stairs_cmd:
  "keys_kept (users (db st)) (users (db (snd (stairs_cmd t td uid hint arg st))))"
  by (simp add: stairs_cmd_def keys_kept_refl keys_kept_addStairs split: option.splits jsnum.splits)

lemma keys_kept_pending_number:
  "keys_kept (users (db st)) (users (db (snd (pending_number t td uid hint md num st))))"
  unfolding pending_number_def Let_def
  by (simp add: keys_kept_simps split: jsnum.splits mode.splits option.splits)

lemma keys_kept_capture_name:
  "keys_kept (users (db st)) (users (db (snd (capture_name t uid msg st))))"
  unfolding capture_name_def Let_def
  by (simp add: keys_kept_simps split: option.splits)

lemma keys_kept_on_text:
  "keys_kept (users (db st)) (users (db (snd (on_text t td uid hint body num st))))"
proof -
  have "\<And>md. keys_kept (users (db (st\<lparr>pendingNumber := (pendingNumber st)(uid := None)\<rparr>)))
          (users (db (snd (pending_number t td uid hint md num
             (st\<lparr>pendingNumber := (pendingNumber st)(uid := None)\<rparr>)))))"
    by (rule keys_kept_pending_number)
  then show ?thesis
    by (simp add: on_text_def Let_def keys_kept_refl keys_kept_capture_name split: option.splits)
qed

lemma keys_kept_update_cmd:
  "keys_kept (users (db st)) (users (db (snd (update_cmd t yr uid da am st))))"
  unfolding update_cmd_def Let_def
  by (simp add: keys_kept_simps split: option.splits jsnum.splits)

lemma keys_json_user: "fst ` set (days_or_empty (json_user u)) = fst ` set (days_or_empty u)"
  by (cases "days u") (force simp: json_user_def days_or_empty_def)+

text \<open>Starting again on the saved file keeps the records when the version tag is set.\<close>

lemma keys_kept_reload:
  "version d \<noteq> None \<Longrightarrow> version d \<noteq> Some 0 \<Longrightarrow>
   keys_kept (users d) (users (readDbV2 t (Some (stored d))))"
  by (simp add: users_reload_kept keys_kept_def map_of_map_entries keys_json_user)

lemma keys_kept_handle: "keys_kept (users (db st)) (users (db (snd (handle c ev st))))"
  by (cases ev)
    (simp_all add: handle_def start_def hears_button_def save_task_def keys_kept_refl
      keys_kept_stairs_cmd keys_kept_on_text keys_kept_update_cmd)

lemma keys_kept_run: "keys_kept (users (db st)) (users (db (run evs st)))"
proof (induction evs arbitrary: st)
  case Nil
  show ?case by (simp add: keys_kept_refl)
next
  case (Cons e evs)
  obtain c ev where e: "e = (c, ev)" by (cases e)
  have "keys_kept (users (db st)) (users (db (snd (handle c ev st))))"
    by (rule keys_kept_handle)
  moreover have "keys_kept (users (db (snd (handle c ev st))))
                   (users (db (run evs (snd (handle c ev st)))))"
    by (rule Cons.IH)
  ultimately show ?case using e by (auto intro: keys_kept_trans)
qed

lemma update_cmd_to_zero:
  assumes "isRegistered (db st) userId" "map_of (users (db st)) userId = Some u"
    "parseUserDate yr da = Some k" "map_of (days_or_empty u) k = Some (Fin v)" "0 < v"
  shows "\<exists>u'. map_of (users (db (snd (update_cmd t yr userId (Some da) (Some (Integer (- v))) st))))
               userId = Some u' \<and> map_of (days_or_empty u') k = Some (Fin 0)"
  using assms parse_nonempty [OF assms(3)]
  by (simp add: update_cmd_def Let_def day_or0_def AList.update_conv' days_or_empty_simps
      fl_exact)


subsection \<open>The version tag\<close>

lemma version_readDbV2: "version (readDbV2 t (Some (stored d))) = Some 2" if "version d = Some 2"
  using that by (simp add: readDbV2_def migrate_def stored_def defaults_def)

lemma version_handle: "version (db (snd (handle c ev st))) = version (db st)"
proof (cases ev)
  case (Stairs uid hint arg)
  then show ?thesis
    by (simp add: handle_def stairs_cmd_def addStairs_def Let_def split: option.splits jsnum.splits)
next
  case (Text uid hint body num)
  then show ?thesis
    by (simp add: handle_def on_text_def capture_name_def pending_number_def Let_def
        split: option.splits jsnum.splits mode.splits)
next
  case (Update uid da am)
  then show ?thesis
    by (simp add: handle_def update_cmd_def Let_def split: option.splits jsnum.splits)
qed (simp_all add: handle_def start_def hears_button_def save_task_def)

text \<open>After \<open>readDbV2\<close> the ledger in memory has version 2 on every path of this program:
  the seed has it, and a file without a version tag is either migrated to it or replaced
  by the seed.\<close>

lemma version_boot_legacy: "version d = None \<Longrightarrow> version (db (boot t (Some (stored d)))) = Some 2"
  by (simp add: boot_def readDbV2_def migrate_def stored_def defaults_def seed_def
      split: sum.splits)

lemma reachable_version: "reachable st \<Longrightarrow> version (db st) = Some 2"
proof (induction rule: reachable.induct)
  case (fresh t)
  show ?case by (simp add: boot_def readDbV2_def seed_def)
next
  case (ensured t t0)
  show ?case by (simp add: boot_def version_readDbV2 seed_def)
next
  case (legacy st0 t)
  then have "legacy_inv (db st0)" by (rule reachable_v3_legacy)
  then show ?case by (simp add: legacy_inv_def version_boot_legacy)
next
  case (step st c ev)
  then show ?case by (simp add: version_handle)
next
  case (step_v2 st t userId body)
  then show ?case by (simp add: on_text_v2_def Let_def)
next
  case (restart st t)
  then show ?case by (simp add: boot_def version_readDbV2)
qed

subsection \<open>Evaluating the scenarios\<close>

lemmas handler_defs = handle_def start_def stairs_cmd_def on_text_def capture_name_def
  pending_number_def update_cmd_def hears_button_def save_task_def boot_def readDbV2_def
  seed_def defaults_def migrate_def stored_def addStairs_def set_users_def
  isRegistered_def fresh_user_def name_or_default_def total_or0_def days_or_empty_def
  day_or0_def sum_days_def fl_exact

lemmas date_defs = parseUserDate_def trim_def is_space_def ISO_RE_def DM_RE_def is_digit_def
  digit_val_def Date_UTC_def days_in_month_def is_leap_def isoDate_def pad4_def pad2_def
  digit_char_def


lemma scenarioC_users:
  "users (db scenarioC) =
     [(''42'', \<lparr>name = ''Vadym'', total = Some (Fin 170),
               days = Some [(''2024-03-01'', Fin 120), (''2024-03-02'', Fin 50)],
               updatedAt = ''2024-03-02T10:00:00.000Z''\<rparr>)]"
  by (simp add: scenarioC_def scenarioC_events_def day1_def day2_def handler_defs date_defs)

lemma scenarioC_vadym: "users (db scenarioC) = [(''42'', vadym)]"
  by (simp add: scenarioC_users vadym_def)

lemma scenarioC_version: "version (db scenarioC) = Some 2"
  by (simp add: scenarioC_def scenarioC_events_def day1_def day2_def handler_defs date_defs)




lemma parse_0302: "parseUserDate 2024 ''2024-03-02'' = Some ''2024-03-02''"
  by (simp add: date_defs)

lemma january_users:
  "users (db january) =
     [(''42'', \<lparr>name = ''Vadym'', total = Some (Fin 3), days = Some [(''2024-01-01'', Fin 3)],
               updatedAt = ''2024-01-01T10:00:00.000Z''\<rparr>)]"
  by (simp add: january_def handler_defs date_defs)

lemma parse_0101: "parseUserDate 2024 ''2024-01-01'' = Some ''2024-01-01''"
  by (simp add: date_defs)

lemma drifted_eval:
  "users (db drifted) =
     [(''42'', \<lparr>name = ''Vadym'', total = Some (Fin 5), days = Some [(''2024-02-01'', Fin 2)],
               updatedAt = ''2024-02-01T07:00:00.000Z''\<rparr>)]"
  by (simp add: drifted_def drifted_file_def handler_defs str_or_def)

lemma plus_pressed_eval:
  "users (db plus_pressed) =
     [(''42'', \<lparr>name = ''Vadym'', total = Some (Fin 5), days = Some [(''2024-02-01'', Fin 2)],
               updatedAt = ''2024-02-01T07:00:00.000Z''\<rparr>)]"
  "awaitingName plus_pressed = {}"
  "pendingNumber plus_pressed ''42'' = Some Add"
  by (simp_all add: plus_pressed_def hears_button_def isRegistered_def drifted_eval)
     (simp_all add: drifted_def boot_def)




lemma scenarioE_load: "readDbV2 t (Some scenarioE) = seed t"
  by (simp add: readDbV2_def migrate_def scenarioE_def needs_seed_def total_or0_def
      days_or_empty_def)

lemma plain_file_migrate: "migrate ''2024-05-01T07:00:00.000Z'' plain_file = Inr plain_migrated"
  by (simp add: migrate_def plain_file_def plain_migrated_def needs_seed_def total_or0_def
      days_or_empty_def)





section \<open>The claims\<close>

subsection \<open>C1: the total is the sum of the days, and no day is negative\<close>




subsection \<open>C2: name capture on a user who has a record\<close>



subsection \<open>C3: the two ways of adding an amount\<close>

text \<open>
  C3, as the code has it.  For a user with a record and a positive amount \<open>n\<close>:
  \<^item> the add branch of \<open>bot.on("text")\<close> after the \<open>+\<close> button sets \<open>days[today]\<close> to
    \<open>(days[today] || 0) + n\<close> and \<open>total\<close> to the sum of all day values, so afterwards
    \<open>total\<close> is \<open>sum(days.values())\<close> whatever the record held before;
  \<^item> \<open>addStairs\<close>, which is all that the command \<open>/stairs\<close> does to the ledger, sets
    \<open>days[dateKey]\<close> to \<open>(days[dateKey] || 0) + n\<close> and \<open>total\<close> to
    \<open>(total || 0) + n\<close>, and does not read the other days.  When the day values are
    integers from 0 on and the total is an integer, and with \<open>n\<close> added they stay
    within \<open>Number.MAX_SAFE_INTEGER\<close> (so that every sum is exact), afterwards
    \<open>total == sum(days.values())\<close> holds exactly when it held before.
\<close>

theorem add_paths:
  assumes "map_of (users (db st)) userId = Some u" and "0 < n"
  shows "(userId \<notin> awaitingName st \<and> pendingNumber st userId = Some Add \<and>
          \<not> startsWithSlash (trim body) \<longrightarrow>
            (\<exists>u'. map_of (users (db (snd (on_text t td userId hint body (Integer n) st)))) userId
                     = Some u' \<and>
                  map_of (days_or_empty u') td =
                    Some (dadd (day_or0 (days_or_empty u) td) (Fin n)) \<and>
                  total u' = Some (sum_days (days_or_empty u')))) \<and>
         (\<exists>u'. map_of (users (addStairs t userId hint n td (db st))) userId = Some u' \<and>
               map_of (days_or_empty u') td =
                 Some (dadd (day_or0 (days_or_empty u) td) (Fin n)) \<and>
               (\<forall>k. k \<noteq> td \<longrightarrow> map_of (days_or_empty u') k = map_of (days_or_empty u) k) \<and>
               total u' = Some (dadd (total_or0 u) (Fin n)) \<and>
               (nat_days (days_or_empty u) \<and>
                exact_sum (days_or_empty u) + n \<le> MAX_SAFE_INTEGER \<and>
                total_or0 u = Fin s \<and> \<bar>s\<bar> + n \<le> MAX_SAFE_INTEGER \<longrightarrow>
                  (total u' = Some (sum_days (days_or_empty u')) \<longleftrightarrow>
                     total_or0 u = sum_days (days_or_empty u)))) \<and>
         (isRegistered (db st) userId \<longrightarrow>
            stairs_cmd t td userId hint (Some (Integer n)) st =
              (Added, st\<lparr>db := addStairs t userId hint n td (db st)\<rparr>))"
proof (intro conjI impI)
  assume "userId \<notin> awaitingName st \<and> pendingNumber st userId = Some Add \<and>
          \<not> startsWithSlash (trim body)"
  with assms
  show "\<exists>u'. map_of (users (db (snd (on_text t td userId hint body (Integer n) st)))) userId
                 = Some u' \<and>
               map_of (days_or_empty u') td =
                 Some (dadd (day_or0 (days_or_empty u) td) (Fin n)) \<and>
               total u' = Some (sum_days (days_or_empty u'))"
    by (simp add: on_text_def pending_number_def Let_def AList.update_conv' days_or_empty_simps)
next
  let ?ds = "days_or_empty u"
  let ?ds' = "AList.update td (dadd (day_or0 ?ds td) (Fin n)) ?ds"
  let ?u' = "u\<lparr>total := Some (dadd (total_or0 u) (Fin n)), days := Some ?ds', updatedAt := t\<rparr>"
  from assms(1) have rec: "map_of (users (addStairs t userId hint n td (db st))) userId = Some ?u'"
    by (simp add: addStairs_def Let_def AList.update_conv')
  have ds': "days_or_empty ?u' = ?ds'" by (simp add: days_or_empty_simps)
  have iff: "total ?u' = Some (sum_days (days_or_empty ?u')) \<longleftrightarrow>
             total_or0 u = sum_days (days_or_empty u)"
    if h: "nat_days ?ds \<and> exact_sum ?ds + n \<le> MAX_SAFE_INTEGER \<and>
           total_or0 u = Fin s \<and> \<bar>s\<bar> + n \<le> MAX_SAFE_INTEGER"
  proof -
    from h have nd: "nat_days ?ds" and e: "exact_sum ?ds + n < 2 ^ 53"
      and s: "total_or0 u = Fin s" "\<bar>s + n\<bar> < 2 ^ 53"
      using assms(2) by (auto simp: MAX_SAFE_INTEGER_def)
    from day_or0_nat [OF nd, of td] obtain c where
      c: "day_or0 ?ds td = Fin c" "0 \<le> c" "c \<le> exact_sum ?ds"
        "\<forall>v. exact_sum (AList.update td (Fin v) ?ds) = exact_sum ?ds - c + v"
      by blast
    from c(2,3) e assms(2) have "\<bar>c + n\<bar> < 2 ^ 53" by simp
    then have day: "dadd (day_or0 ?ds td) (Fin n) = Fin (c + n)" by (simp add: c(1) fl_exact)
    from nd c(2) assms(2) have nd': "nat_days (AList.update td (Fin (c + n)) ?ds)"
      unfolding nat_days_def by (intro list_all_update) simp_all
    from c(4) have "exact_sum (AList.update td (Fin (c + n)) ?ds) = exact_sum ?ds + n" by simp
    with nd' e have new: "sum_days ?ds' = Fin (exact_sum ?ds + n)"
      by (simp add: day sum_days_exact)
    from nd e assms(2) have old: "sum_days ?ds = Fin (exact_sum ?ds)"
      by (intro sum_days_exact) simp_all
    from s have tot: "dadd (total_or0 u) (Fin n) = Fin (s + n)" by (simp add: fl_exact)
    define w where "w = ?u'"
    have t1: "total w = Some (Fin (s + n))" by (simp add: w_def tot)
    have t2: "sum_days (days_or_empty w) = Fin (exact_sum ?ds + n)"
      unfolding w_def ds' by (rule new)
    have "total w = Some (sum_days (days_or_empty w)) \<longleftrightarrow>
          total_or0 u = sum_days (days_or_empty u)"
      unfolding t1 t2 old s(1) by simp
    then show ?thesis by (simp only: w_def)
  qed
  show "\<exists>u'. map_of (users (addStairs t userId hint n td (db st))) userId = Some u' \<and>
               map_of (days_or_empty u') td =
                 Some (dadd (day_or0 (days_or_empty u) td) (Fin n)) \<and>
               (\<forall>k. k \<noteq> td \<longrightarrow> map_of (days_or_empty u') k = map_of (days_or_empty u) k) \<and>
               total u' = Some (dadd (total_or0 u) (Fin n)) \<and>
               (nat_days (days_or_empty u) \<and>
                exact_sum (days_or_empty u) + n \<le> MAX_SAFE_INTEGER \<and>
                total_or0 u = Fin s \<and> \<bar>s\<bar> + n \<le> MAX_SAFE_INTEGER \<longrightarrow>
                  (total u' = Some (sum_days (days_or_empty u')) \<longleftrightarrow>
                     total_or0 u = sum_days (days_or_empty u)))"
  proof (intro exI [of _ ?u'] conjI impI allI)
    show "map_of (users (addStairs t userId hint n td (db st))) userId = Some ?u'" by (rule rec)
    show "map_of (days_or_empty ?u') td = Some (dadd (day_or0 ?ds td) (Fin n))"
      by (simp add: ds' AList.update_conv')
    show "map_of (days_or_empty ?u') k = map_of ?ds k" if "k \<noteq> td" for k
      using that by (simp add: ds' AList.update_conv')
    show "total ?u' = Some (dadd (total_or0 u) (Fin n))" by simp
    show "total ?u' = Some (sum_days (days_or_empty ?u')) \<longleftrightarrow>
             total_or0 u = sum_days (days_or_empty u)"
      if "nat_days ?ds \<and> exact_sum ?ds + n \<le> MAX_SAFE_INTEGER \<and>
           total_or0 u = Fin s \<and> \<bar>s\<bar> + n \<le> MAX_SAFE_INTEGER"
      using that by (rule iff)
  qed
next
  assume "isRegistered (db st) userId"
  with assms(2)
  show "stairs_cmd t td userId hint (Some (Integer n)) st =
          (Added, st\<lparr>db := addStairs t userId hint n td (db st)\<rparr>)"
    by (simp add: stairs_cmd_def)
qed

theorem add_paths_witness:
  "map_of (users (db (snd (on_text ''2024-03-01T08:00:00.000Z'' ''2024-03-01'' ''42'' None ''3''
                             (Integer 3) plus_pressed)))) ''42'' =
     Some \<lparr>name = ''Vadym'', total = Some (Fin 5),
           days = Some [(''2024-02-01'', Fin 2), (''2024-03-01'', Fin 3)],
           updatedAt = ''2024-03-01T08:00:00.000Z''\<rparr> \<and>
   (\<exists>u'. map_of (users (addStairs ''2024-03-01T08:00:00.000Z'' ''42'' None 3 ''2024-03-01''
                          (db plus_pressed))) ''42'' = Some u' \<and>
         total u' = Some (Fin 8) \<and> total u' \<noteq> Some (sum_days (days_or_empty u'))) \<and>
   fst (stairs_cmd ''2024-03-01T08:00:00.000Z'' ''2024-03-01'' ''42'' None (Some (Integer 3))
          plus_pressed) = Added"
proof -
  let ?u = "\<lparr>name = ''Vadym'', total = Some (Fin 5), days = Some [(''2024-02-01'', Fin 2)],
             updatedAt = ''2024-02-01T07:00:00.000Z''\<rparr>"
  have r: "map_of (users (db plus_pressed)) ''42'' = Some ?u"
    by (simp add: plus_pressed_eval)
  have g: "''42'' \<notin> awaitingName plus_pressed \<and> pendingNumber plus_pressed ''42'' = Some Add \<and>
           \<not> startsWithSlash (trim ''3'')"
    by (simp add: plus_pressed_eval trim_def is_space_def)
  have reg: "isRegistered (db plus_pressed) ''42''"
    by (simp add: isRegistered_def plus_pressed_eval)
  have e: "map_of (users (db (snd (on_text ''2024-03-01T08:00:00.000Z'' ''2024-03-01'' ''42'' None
                             ''3'' (Integer 3) plus_pressed)))) ''42'' =
     Some \<lparr>name = ''Vadym'', total = Some (Fin 5),
           days = Some [(''2024-02-01'', Fin 2), (''2024-03-01'', Fin 3)],
           updatedAt = ''2024-03-01T08:00:00.000Z''\<rparr>"
    using g
    by (simp add: on_text_def pending_number_def Let_def plus_pressed_eval days_or_empty_def
        day_or0_def sum_days_def set_users_def fl_exact)
  have safe: "nat_days (days_or_empty ?u) \<and> exact_sum (days_or_empty ?u) + 3 \<le> MAX_SAFE_INTEGER \<and>
              total_or0 ?u = Fin 5 \<and> \<bar>5\<bar> + 3 \<le> MAX_SAFE_INTEGER"
    by (simp add: nat_days_def exact_sum_def days_or_empty_def total_or0_def MAX_SAFE_INTEGER_def)
  have drift: "total_or0 ?u \<noteq> sum_days (days_or_empty ?u)"
    by (simp add: total_or0_def days_or_empty_def sum_days_def fl_exact)
  note th = add_paths [OF r, of 3 "''3''" "''2024-03-01T08:00:00.000Z''" "''2024-03-01''" None 5]
  from th [THEN conjunct2, THEN conjunct1] safe drift
  have "\<exists>u'. map_of (users (addStairs ''2024-03-01T08:00:00.000Z'' ''42'' None 3
       ''2024-03-01'' (db plus_pressed))) ''42'' = Some u' \<and> total u' = Some (Fin 8) \<and>
       total u' \<noteq> Some (sum_days (days_or_empty u'))"
    by (auto simp: total_or0_def fl_exact)
  moreover from th [THEN conjunct2, THEN conjunct2] reg
  have "fst (stairs_cmd ''2024-03-01T08:00:00.000Z'' ''2024-03-01'' ''42'' None (Some (Integer 3))
          plus_pressed) = Added"
    by simp
  ultimately show ?thesis using e by simp
qed

text \<open>The claim fails for \<open>addStairs\<close>: loaded with total 5 and days summing to 2, the
  record has total 8 and days summing to 5 after \<open>/stairs 3\<close>.\<close>

theorem addStairs_keeps_drift:
  "stairs_cmd ''2024-03-01T08:00:00.000Z'' ''2024-03-01'' ''42'' None (Some (Integer 3)) drifted =
     (Added, drifted\<lparr>db := (db drifted)\<lparr>users :=
        [(''42'', \<lparr>name = ''Vadym'', total = Some (Fin 8),
                  days = Some [(''2024-02-01'', Fin 2), (''2024-03-01'', Fin 3)],
                  updatedAt = ''2024-03-01T08:00:00.000Z''\<rparr>)]\<rparr>\<rparr>) \<and>
   sum_days [(''2024-02-01'', Fin 2), (''2024-03-01'', Fin 3)] = Fin 5"
  by (simp add: stairs_cmd_def addStairs_def isRegistered_def drifted_eval Let_def
      days_or_empty_def day_or0_def total_or0_def sum_days_def fl_exact)

subsection \<open>C4: a negative /update that the day cannot cover is refused\<close>

text \<open>
  C4.  For a registered user with a record, a date that parses and a negative integer
  \<open>n\<close>: with \<open>current = days[dateKey] || 0\<close>, when \<open>current = 0\<close> or
  \<open>abs(n) > current\<close> the command \<open>/update\<close> answers with one of the two
  insufficient-balance refusals and returns the state as it was (so the record's
  \<open>days\<close>, \<open>total\<close> and \<open>updatedAt\<close> are unchanged).
\<close>

theorem update_refuses_overdraw:
  assumes "isRegistered (db st) userId"
    and "map_of (users (db st)) userId = Some u"
    and "parseUserDate yr da = Some k"
    and "n < 0"
    and "day_or0 (days_or_empty u) k = Fin 0 \<or> lt (day_or0 (days_or_empty u) k) (Fin \<bar>n\<bar>)"
  shows "InsufficientDayBalance (fst (update_cmd t yr userId (Some da) (Some (Integer n)) st)) \<and>
         snd (update_cmd t yr userId (Some da) (Some (Integer n)) st) = st"
  using assms parse_nonempty [OF assms(3)]
  by (auto simp: update_cmd_def InsufficientDayBalance_def Let_def)

theorem update_refuses_overdraw_witness:
  "update_cmd ''2024-01-02T10:00:00.000Z'' 2024 ''42'' (Some ''2024-01-01'') (Some (Integer (- 5)))
     january = (SubtractTooMuch, january) \<and>
   InsufficientDayBalance SubtractTooMuch \<and>
   map_of (users (db january)) ''42'' =
     Some \<lparr>name = ''Vadym'', total = Some (Fin 3), days = Some [(''2024-01-01'', Fin 3)],
           updatedAt = ''2024-01-01T10:00:00.000Z''\<rparr>"
proof -
  let ?u = "\<lparr>name = ''Vadym'', total = Some (Fin 3), days = Some [(''2024-01-01'', Fin 3)],
           updatedAt = ''2024-01-01T10:00:00.000Z''\<rparr>"
  have reg: "isRegistered (db january) ''42''"
    by (simp add: isRegistered_def january_users)
  have rec: "map_of (users (db january)) ''42'' = Some ?u"
    by (simp add: january_users)
  have cur: "day_or0 (days_or_empty ?u) ''2024-01-01'' = Fin 0 \<or>
             lt (day_or0 (days_or_empty ?u) ''2024-01-01'') (Fin \<bar>- 5\<bar>)"
    by (simp add: day_or0_def days_or_empty_def)
  have r: "fst (update_cmd ''2024-01-02T10:00:00.000Z'' 2024 ''42'' (Some ''2024-01-01'')
             (Some (Integer (- 5))) january) = SubtractTooMuch"
    using reg rec by (simp add: update_cmd_def parse_0101 Let_def day_or0_def days_or_empty_def)
  from update_refuses_overdraw [OF reg rec parse_0101 _ cur, of "''2024-01-02T10:00:00.000Z''"] r rec
  show ?thesis by (simp add: prod_eq_iff InsufficientDayBalance_def)
qed

subsection \<open>C5: parsing a date\<close>




subsection \<open>C6: what the migration does\<close>

text \<open>
  C6 does not hold of the code.  For a file whose \<open>version\<close> is absent or 0:
  \<^item> when some record has \<open>(total || 0) > 0\<close> and no day, the seeding line
    \<open>u.days[todayKey()] = u.total\<close> throws (the constant \<open>todayKey\<close> is initialised only
    after \<open>readDbV2\<close> has returned), and \<open>readDbV2\<close> returns the empty seed: no record
    is seeded, and every record of the file is dropped;
  \<^item> when no record is in that case, the users and their order are kept, every record
    gets \<open>days = days || {}\<close> and nothing else of it changes, and the result has
    version 2.
  So \<open>days[today] = total\<close> is written for no record.
\<close>

theorem migration_never_seeds:
  "(s_version p = None \<or> s_version p = Some 0) \<and> s_users p = Some us \<longrightarrow>
     ((uid, u) \<in> set us \<and> lt (Fin 0) (total_or0 u) \<and> days_or_empty u = [] \<longrightarrow>
        migrate t p = Inl ReferenceError \<and> readDbV2 t (Some p) = seed t \<and> users (seed t) = []) \<and>
     (list_all (\<lambda>(uid, u). \<not> (lt (Fin 0) (total_or0 u) \<and> days_or_empty u = [])) us \<longrightarrow>
        migrate t p =
          Inr (p\<lparr>s_users := Some (map (\<lambda>(uid, u). (uid, u\<lparr>days := Some (days_or_empty u)\<rparr>)) us),
                 s_version := Some 2, s_updatedAt := Some t\<rparr>) \<and>
        users (readDbV2 t (Some p)) =
          map (\<lambda>(uid, u). (uid, u\<lparr>days := Some (days_or_empty u)\<rparr>)) us \<and>
        version (readDbV2 t (Some p)) = Some 2)"
proof (intro conjI impI)
  assume v: "(s_version p = None \<or> s_version p = Some 0) \<and> s_users p = Some us"
  assume "(uid, u) \<in> set us \<and> lt (Fin 0) (total_or0 u) \<and> days_or_empty u = []"
  then have "\<exists>(uid, u) \<in> set us. needs_seed u" by (auto simp: needs_seed_def)
  then have "migrate_users us = Inl ReferenceError" by (simp add: migrate_users_Inl)
  with v show m: "migrate t p = Inl ReferenceError" by (auto simp: migrate_def)
  then show "readDbV2 t (Some p) = seed t" by (simp add: readDbV2_def)
  show "users (seed t) = []" by (simp add: seed_def)
next
  assume v: "(s_version p = None \<or> s_version p = Some 0) \<and> s_users p = Some us"
  assume "list_all (\<lambda>(uid, u). \<not> (lt (Fin 0) (total_or0 u) \<and> days_or_empty u = [])) us"
  then have "list_all (\<lambda>(uid, u). \<not> needs_seed u) us" by (simp add: needs_seed_def)
  then have ok: "migrate_users us =
      Inr (map (\<lambda>(uid, u). (uid, u\<lparr>days := Some (days_or_empty u)\<rparr>)) us)"
    by (rule migrate_users_ok)
  with v show m: "migrate t p =
          Inr (p\<lparr>s_users := Some (map (\<lambda>(uid, u). (uid, u\<lparr>days := Some (days_or_empty u)\<rparr>)) us),
                 s_version := Some 2, s_updatedAt := Some t\<rparr>)"
    by (auto simp: migrate_def)
  then show "users (readDbV2 t (Some p)) =
          map (\<lambda>(uid, u). (uid, u\<lparr>days := Some (days_or_empty u)\<rparr>)) us"
    by (simp add: readDbV2_def defaults_def)
  from m show "version (readDbV2 t (Some p)) = Some 2"
    by (simp add: readDbV2_def defaults_def)
qed

theorem migration_never_seeds_witness:
  "migrate ''2024-05-01T07:00:00.000Z'' scenarioE = Inl ReferenceError \<and>
   readDbV2 ''2024-05-01T07:00:00.000Z'' (Some scenarioE) =
     \<lparr>users = [], createdAt = ''2024-05-01T07:00:00.000Z'',
      db_updatedAt = ''2024-05-01T07:00:00.000Z'', version = Some 2\<rparr> \<and>
   migrate ''2024-05-01T07:00:00.000Z'' plain_file = Inr plain_migrated \<and>
   users (readDbV2 ''2024-05-01T07:00:00.000Z'' (Some plain_file)) =
     [(''7'', \<lparr>name = ''X'', total = Some (Fin 0), days = Some [],
               updatedAt = ''2024-04-30T12:00:00.000Z''\<rparr>),
      (''8'', \<lparr>name = ''Y'', total = Some (Fin 5), days = Some [(''2024-04-30'', Fin 5)],
               updatedAt = ''2024-04-30T12:00:00.000Z''\<rparr>)]"
proof -
  let ?x = "\<lparr>name = ''X'', total = Some (Fin 40), days = Some [],
             updatedAt = ''2024-04-30T12:00:00.000Z''\<rparr>"
  have e: "(s_version scenarioE = None \<or> s_version scenarioE = Some 0) \<and>
           s_users scenarioE = Some [(''7'', ?x)]"
    by (simp add: scenarioE_def)
  have x: "(''7'', ?x) \<in> set [(''7'', ?x)] \<and> lt (Fin 0) (total_or0 ?x) \<and> days_or_empty ?x = []"
    by (simp add: total_or0_def days_or_empty_def)
  let ?us = "[(''7'', \<lparr>name = ''X'', total = Some (Fin 0), days = None,
                       updatedAt = ''2024-04-30T12:00:00.000Z''\<rparr>),
              (''8'', \<lparr>name = ''Y'', total = Some (Fin 5), days = Some [(''2024-04-30'', Fin 5)],
                       updatedAt = ''2024-04-30T12:00:00.000Z''\<rparr>)]"
  have f: "(s_version plain_file = None \<or> s_version plain_file = Some 0) \<and>
           s_users plain_file = Some ?us"
    by (simp add: plain_file_def)
  have ok: "list_all (\<lambda>(uid, u). \<not> (lt (Fin 0) (total_or0 u) \<and> days_or_empty u = [])) ?us"
    by (simp add: total_or0_def days_or_empty_def)
  from migration_never_seeds [of scenarioE "[(''7'', ?x)]" "''7''" ?x
      "''2024-05-01T07:00:00.000Z''"] e x
  have 1: "migrate ''2024-05-01T07:00:00.000Z'' scenarioE = Inl ReferenceError \<and>
           readDbV2 ''2024-05-01T07:00:00.000Z'' (Some scenarioE) = seed ''2024-05-01T07:00:00.000Z''"
    by blast
  from migration_never_seeds [of plain_file ?us _ _ "''2024-05-01T07:00:00.000Z''"] f ok
  have 2: "migrate ''2024-05-01T07:00:00.000Z'' plain_file =
          Inr (plain_file\<lparr>s_users := Some (map (\<lambda>(uid, u). (uid, u\<lparr>days := Some (days_or_empty u)\<rparr>)) ?us),
                 s_version := Some 2, s_updatedAt := Some ''2024-05-01T07:00:00.000Z''\<rparr>) \<and>
        users (readDbV2 ''2024-05-01T07:00:00.000Z'' (Some plain_file)) =
          map (\<lambda>(uid, u). (uid, u\<lparr>days := Some (days_or_empty u)\<rparr>)) ?us"
    by blast
  from 1 2 show ?thesis
    by (simp add: seed_def plain_file_def plain_migrated_def days_or_empty_def)
qed

subsection \<open>C7: migrating twice\<close>

text \<open>
  C7.  Loading is idempotent.  When the migration block succeeds, running it again on
  its result changes nothing, whatever the clock shows at the second time; on a
  snapshot of version 2 it changes nothing in the first place.  And for every file,
  missing or unreadable ones and those on which the migration throws included,
  \<open>readDbV2\<close> applied to the ledger that \<open>readDbV2\<close> returned gives that ledger again
  (after the empty seed of a failed load: the empty seed).  The clock \<open>now\<close> is a
  non-empty string.
\<close>

theorem load_idempotent:
  "(migrate t p = Inr p' \<longrightarrow> migrate t' p' = Inr p') \<and>
   (s_version p = Some 2 \<longrightarrow> migrate t p = Inr p) \<and>
   (t \<noteq> [] \<longrightarrow>
      readDbV2 t' (Some (as_parsed (readDbV2 t file))) = readDbV2 t file \<and>
      version (readDbV2 t file) \<noteq> None \<and> version (readDbV2 t file) \<noteq> Some 0)"
proof (intro conjI impI)
  assume "migrate t p = Inr p'"
  then have "s_version p' \<noteq> None \<and> s_version p' \<noteq> Some 0"
    by (auto simp: migrate_def split: if_splits sum.splits)
  then show "migrate t' p' = Inr p'" by (auto simp: migrate_def)
next
  assume "s_version p = Some 2"
  then show "migrate t p = Inr p" by (simp add: migrate_def)
next
  assume t: "t \<noteq> []"
  define d where "d = readDbV2 t file"
  have v: "version d \<noteq> None \<and> version d \<noteq> Some 0"
    unfolding d_def
    by (auto simp: readDbV2_def seed_def defaults_def migrate_def
        split: option.splits sum.splits if_splits)
  have c: "createdAt d \<noteq> [] \<and> db_updatedAt d \<noteq> []"
    unfolding d_def using t
    by (auto simp: readDbV2_def seed_def defaults_def str_or_def split: option.splits sum.splits)
  from v have "migrate t' (as_parsed d) = Inr (as_parsed d)"
    by (auto simp: migrate_def as_parsed_def)
  with c have "readDbV2 t' (Some (as_parsed d)) = d"
    by (simp add: readDbV2_def defaults_def as_parsed_def str_or_def)
  then show "readDbV2 t' (Some (as_parsed (readDbV2 t file))) = readDbV2 t file"
    by (simp add: d_def)
  from v show "version (readDbV2 t file) \<noteq> None" "version (readDbV2 t file) \<noteq> Some 0"
    by (simp_all add: d_def)
qed

theorem load_idempotent_witness:
  "migrate ''2024-05-01T07:00:00.000Z'' plain_file = Inr plain_migrated \<and>
   migrate ''2024-06-01T07:00:00.000Z'' plain_migrated = Inr plain_migrated \<and>
   readDbV2 ''2024-05-01T07:00:00.000Z'' (Some scenarioE) = seed ''2024-05-01T07:00:00.000Z'' \<and>
   readDbV2 ''2024-06-01T07:00:00.000Z''
     (Some (as_parsed (readDbV2 ''2024-05-01T07:00:00.000Z'' (Some scenarioE)))) =
     seed ''2024-05-01T07:00:00.000Z'' \<and>
   readDbV2 ''2024-06-01T07:00:00.000Z''
     (Some (as_parsed (readDbV2 ''2024-05-01T07:00:00.000Z'' (Some plain_file)))) =
     readDbV2 ''2024-05-01T07:00:00.000Z'' (Some plain_file) \<and>
   s_version plain_migrated = Some 2"
proof -
  have v: "s_version plain_migrated = Some 2" by (simp add: plain_migrated_def)
  have ne: "''2024-05-01T07:00:00.000Z'' \<noteq> []" by simp
  from load_idempotent [of "''2024-05-01T07:00:00.000Z''" plain_file plain_migrated
      "''2024-06-01T07:00:00.000Z''" "Some scenarioE"]
    load_idempotent [of "''2024-05-01T07:00:00.000Z''" plain_migrated plain_migrated
      "''2024-06-01T07:00:00.000Z''" "Some plain_file"]
    plain_file_migrate v ne
  show ?thesis by (simp add: scenarioE_load)
qed

subsection \<open>C8: a day, once recorded, stays in the record\<close>

text \<open>
  C8.  Whatever events follow (any run of the handlers of the bot), a date key that a
  user's \<open>days\<close> holds is still a key of that user's \<open>days\<close> afterwards.  In particular
  \<open>/update\<close> with the negative of a day's whole value leaves the key in place with the
  value 0.  A start of the process on the file that it has saved keeps the keys too: the
  ledger in memory has a version tag (after \<open>readDbV2\<close> it always has), so the saved file
  is read without migration.
\<close>

theorem day_keys_never_removed:
  "(map_of (users (db st)) userId = Some u \<and> k \<in> fst ` set (days_or_empty u) \<longrightarrow>
      (\<exists>u'. map_of (users (db (run evs st))) userId = Some u' \<and>
            k \<in> fst ` set (days_or_empty u'))) \<and>
   (isRegistered (db st) userId \<and> map_of (users (db st)) userId = Some u \<and>
    parseUserDate yr da = Some k \<and> map_of (days_or_empty u) k = Some (Fin v) \<and> 0 < v \<longrightarrow>
      (\<exists>u'. map_of (users (db (snd (update_cmd t yr userId (Some da) (Some (Integer (- v))) st))))
               userId = Some u' \<and> map_of (days_or_empty u') k = Some (Fin 0))) \<and>
   (version (db st) \<noteq> None \<and> version (db st) \<noteq> Some 0 \<and>
    map_of (users (db st)) userId = Some u \<and> k \<in> fst ` set (days_or_empty u) \<longrightarrow>
      (\<exists>u'. map_of (users (db (boot t (Some (stored (db st)))))) userId = Some u' \<and>
            k \<in> fst ` set (days_or_empty u'))) \<and>
   (reachable st \<longrightarrow> version (db st) \<noteq> None \<and> version (db st) \<noteq> Some 0)"
proof (intro conjI impI)
  assume "map_of (users (db st)) userId = Some u \<and> k \<in> fst ` set (days_or_empty u)"
  with keys_kept_run [of st evs]
  show "\<exists>u'. map_of (users (db (run evs st))) userId = Some u' \<and>
             k \<in> fst ` set (days_or_empty u')"
    unfolding keys_kept_def by blast
next
  assume "isRegistered (db st) userId \<and> map_of (users (db st)) userId = Some u \<and>
    parseUserDate yr da = Some k \<and> map_of (days_or_empty u) k = Some (Fin v) \<and> 0 < v"
  then show "\<exists>u'. map_of (users (db (snd (update_cmd t yr userId (Some da)
                 (Some (Integer (- v))) st)))) userId = Some u' \<and>
               map_of (days_or_empty u') k = Some (Fin 0)"
    by (elim conjE) (rule update_cmd_to_zero)
next
  assume a: "version (db st) \<noteq> None \<and> version (db st) \<noteq> Some 0 \<and>
    map_of (users (db st)) userId = Some u \<and> k \<in> fst ` set (days_or_empty u)"
  then have "keys_kept (users (db st)) (users (readDbV2 t (Some (stored (db st)))))"
    by (intro keys_kept_reload) simp_all
  then have "\<exists>u'. map_of (users (readDbV2 t (Some (stored (db st))))) userId = Some u' \<and>
            k \<in> fst ` set (days_or_empty u')"
    using a unfolding keys_kept_def by blast
  then show "\<exists>u'. map_of (users (db (boot t (Some (stored (db st)))))) userId = Some u' \<and>
            k \<in> fst ` set (days_or_empty u')"
    by (simp add: boot_def)
next
  assume "reachable st"
  then have "version (db st) = Some 2" by (rule reachable_version)
  then show "version (db st) \<noteq> None" "version (db st) \<noteq> Some 0" by simp_all
qed

theorem day_keys_never_removed_witness:
  "users (db (snd (update_cmd ''2024-03-03T08:00:00.000Z'' 2024 ''42''
       (Some ''2024-03-02'') (Some (Integer (- 50))) scenarioC))) =
     [(''42'', \<lparr>name = ''Vadym'', total = Some (Fin 120),
               days = Some [(''2024-03-01'', Fin 120), (''2024-03-02'', Fin 0)],
               updatedAt = ''2024-03-03T08:00:00.000Z''\<rparr>)] \<and>
   (\<exists>u'. map_of (users (db (snd (update_cmd ''2024-03-03T08:00:00.000Z'' 2024 ''42''
       (Some ''2024-03-02'') (Some (Integer (- 50))) scenarioC)))) ''42'' = Some u' \<and>
       map_of (days_or_empty u') ''2024-03-02'' = Some (Fin 0)) \<and>
   (\<exists>u'. map_of (users (db (run [(day2, Update ''42'' (Some ''2024-03-02'') (Some (Integer (- 50)))),
                                 (day2, SaveTask)] scenarioC))) ''42'' = Some u' \<and>
       ''2024-03-02'' \<in> fst ` set (days_or_empty u')) \<and>
   (\<exists>u'. map_of (users (db (boot ''2024-03-03T08:00:00.000Z'' (Some (stored (db scenarioC))))))
            ''42'' = Some u' \<and>
       ''2024-03-02'' \<in> fst ` set (days_or_empty u')) \<and>
   version (db scenarioC) = Some 2"
proof -
  have reg: "isRegistered (db scenarioC) ''42''"
    by (simp add: isRegistered_def scenarioC_vadym vadym_def)
  have rec: "map_of (users (db scenarioC)) ''42'' = Some vadym"
    by (simp add: scenarioC_vadym)
  have day: "map_of (days_or_empty vadym) ''2024-03-02'' = Some (Fin 50)"
    by (simp add: vadym_def days_or_empty_def)
  have key: "''2024-03-02'' \<in> fst ` set (days_or_empty vadym)"
    by (simp add: vadym_def days_or_empty_def)
  have r: "reachable scenarioC"
    unfolding scenarioC_def by (intro reachable_run reachable.fresh)
  have val: "users (db (snd (update_cmd ''2024-03-03T08:00:00.000Z'' 2024 ''42''
       (Some ''2024-03-02'') (Some (Integer (- 50))) scenarioC))) =
     [(''42'', \<lparr>name = ''Vadym'', total = Some (Fin 120),
               days = Some [(''2024-03-01'', Fin 120), (''2024-03-02'', Fin 0)],
               updatedAt = ''2024-03-03T08:00:00.000Z''\<rparr>)]"
    using reg rec
    by (simp add: update_cmd_def parse_0302 Let_def vadym_def days_or_empty_def day_or0_def
        sum_days_def scenarioC_vadym fl_exact)
  from day_keys_never_removed [of scenarioC "''42''" vadym "''2024-03-02''"
      "[(day2, Update ''42'' (Some ''2024-03-02'') (Some (Integer (- 50)))), (day2, SaveTask)]"
      2024 "''2024-03-02''" 50 "''2024-03-03T08:00:00.000Z''"]
    reg rec day key parse_0302 val r scenarioC_version
  show ?thesis by simp
qed

subsection \<open>C9: the write queue\<close>

text \<open>
  C9 is about \<open>saveDb\<close>: each call chains a task on the promise \<open>writeQueue\<close>
  (\<open>writeQueue.then(task).catch(log)\<close>).  When a queued task starts and whether two
  write-and-rename sequences overlap in time is decided by the runtime that settles the
  promises, not by a function of the program's state, so it has no statement here.  The
  one effect of a task on the ledger, stamping \<open>db.updatedAt\<close>, is \<open>save_task\<close>.
\<close>

subsection \<open>C10: a record exists exactly for the registered users\<close>

text \<open>
  C10.  In every reachable state every user record has a non-empty name, so
  \<open>isRegistered(userId)\<close> is true exactly when \<open>db.users[userId]\<close> exists.  The two
  sources of a name are non-empty: a record created while logging gets the hint or,
  without a hint, the fallback \<open>NO_NAME\<close>; and name capture stores a name only when
  it has 2 to 40 characters.
\<close>

theorem registered_iff_record:
  "(reachable st \<longrightarrow>
      (\<forall>(uid, u) \<in> set (users (db st)). name u \<noteq> []) \<and>
      (isRegistered (db st) userId \<longleftrightarrow> map_of (users (db st)) userId \<noteq> None)) \<and>
   name_or_default None = NO_NAME \<and> name_or_default (Some []) = NO_NAME \<and> NO_NAME \<noteq> [] \<and>
   (fst (capture_name t uid msg st') = Thanks \<longrightarrow> 2 \<le> length msg \<and> length msg \<le> 40)"
proof (intro conjI impI)
  assume "reachable st"
  then have n: "named (db st)" by (rule reachable_named)
  then show "\<forall>(uid, u) \<in> set (users (db st)). name u \<noteq> []"
    by (simp add: named_def list_all_iff)
  from n show "isRegistered (db st) userId \<longleftrightarrow> map_of (users (db st)) userId \<noteq> None"
    by (rule registered_iff)
next
  show "name_or_default None = NO_NAME" "name_or_default (Some []) = NO_NAME"
    by (simp_all add: name_or_default_def)
  show "NO_NAME \<noteq> []" by (rule NO_NAME_nonempty)
next
  assume "fst (capture_name t uid msg st') = Thanks"
  then show "2 \<le> length msg" "length msg \<le> 40"
    by (simp_all add: capture_name_thanks)
qed

theorem registered_iff_record_witness:
  "isRegistered (db scenarioC) ''42'' \<and> map_of (users (db scenarioC)) ''42'' = Some vadym \<and>
   \<not> isRegistered (db scenarioC) ''7'' \<and> map_of (users (db scenarioC)) ''7'' = None \<and>
   fst (capture_name ''2024-03-01T10:00:00.000Z'' ''42'' ''Vadym''
          (snd (start ''42'' (boot ''2024-03-01T09:00:00.000Z'' None)))) = Thanks \<and>
   length ''Vadym'' = 5"
proof -
  have r: "reachable scenarioC"
    unfolding scenarioC_def by (intro reachable_run reachable.fresh)
  have c: "fst (capture_name ''2024-03-01T10:00:00.000Z'' ''42'' ''Vadym''
          (snd (start ''42'' (boot ''2024-03-01T09:00:00.000Z'' None)))) = Thanks"
    by (simp add: capture_name_def Let_def)
  from registered_iff_record [where st = scenarioC and userId = "''42''"
      and t = "''2024-03-01T10:00:00.000Z''" and uid = "''42''" and msg = "''Vadym''"
      and st' = "snd (start ''42'' (boot ''2024-03-01T09:00:00.000Z'' None))"]
    registered_iff_record [where st = scenarioC and userId = "''7''"] r c
  show ?thesis by (simp add: scenarioC_vadym)
qed

end
